theory Spec2Isabelle
  imports Complex_Main "HOL-Library.Monad_Syntax"
begin

section \<open>The autonomous driver \<open>AICar\<close> (src/utils/AICar.ts)\<close>

text \<open>
  Numbers of the source are IEEE doubles; the model computes with real numbers. Inside the
  range where doubles behave like reals up to rounding, the model follows the source. It
  does not follow it where doubles leave that range:
  \<^item> rounding is left out (a comparison can differ for values that round across it);
  \<^item> overflow and underflow are left out: in the source \<open>dx * dx\<close> can underflow to
    \<open>0\<close> for \<open>dx \<noteq> 0\<close>, which the model cannot do, so nothing is stated here
    about the finiteness of racing-line points of distinct checkpoints;
  \<^item> a double of magnitude about \<open>1e17\<close> or more does not change when \<open>2 * Math.PI\<close> is
    subtracted, so the source's normalisation loops do not end there, while the
    model's always end; statements about the normalised heading error are made for
    normalised headings only;
  \<^item> no coordinate of a checkpoint or of a racing-line point is the double \<open>-0\<close>; then
    the differences \<open>dx\<close> and \<open>dy\<close> of a decision pass are never \<open>-0\<close>, and
    \<open>-dy\<close> is \<open>-0\<close> whenever it is zero (see \<open>atan2\<close>).

  The \<open>NaN\<close> of the division \<open>0 / 0\<close> in \<open>calculateRacingLine\<close> (a leg between
  coincident checkpoints) is modelled explicitly (see \<open>waypoint\<close>). A \<open>TypeError\<close>
  (reading a property of \<open>undefined\<close>) is the value \<open>None\<close> of the option monad; the
  state a call leaves behind when it raises is not modelled. Every call of
  \<open>Math.random()\<close> is an input of the decision pass. The cursor \<open>targetCheckpoint\<close>
  is a natural number or \<open>undefined\<close>.
\<close>

subsection \<open>Data\<close>

text \<open>An object \<open>{x, y}\<close>: a checkpoint of the track or a point of the racing line.\<close>

record point =
  point_x :: real
  point_y :: real

text \<open>
  An entry of \<open>racingLine\<close>. \<open>None\<close> is the entry \<open>{x: NaN, y: NaN}\<close> that
  \<open>calculateRacingLine\<close> pushes for a leg of length zero.
\<close>

type_synonym waypoint = "point option"

text \<open>An entry \<open>{angle, distance}\<close> of \<open>avoidanceSensors\<close>.\<close>

record sensor =
  sensor_angle :: real
  sensor_distance :: real

text \<open>
  The members of class \<open>Track\<close> that \<open>AICar\<close> reads. The class itself is not part of
  the sources at hand; the boundary test is a field of the record.
\<close>

record track =
  checkpoints :: "point list"
  isPointOutOfBounds :: "real \<Rightarrow> real \<Rightarrow> bool"

text \<open>
  The fields of the superclass \<open>Car\<close> that \<open>AICar\<close> reads or writes: \<open>x\<close>, \<open>y\<close>,
  \<open>angle\<close>, \<open>drifting\<close>, \<open>maxVelocity\<close> and \<open>targetCheckpoint\<close> (\<open>None\<close> is
  \<open>undefined\<close>). Everything else \<open>Car\<close> keeps (speed, boost flag, size, colour) is
  the field \<open>hidden\<close>, of a type the model leaves open.
\<close>

record 'h car =
  car_x :: real
  car_y :: real
  angle :: real
  drifting :: bool
  maxVelocity :: real
  targetCheckpoint :: "nat option"
  hidden :: 'h

text \<open>
  The methods of class \<open>Car\<close> that \<open>AICar\<close> calls. \<open>Car\<close> is not part of the sources
  at hand, so its methods are a parameter of every function below.
\<close>

record 'h car_class =
  construct :: "real \<Rightarrow> real \<Rightarrow> real \<Rightarrow> real \<Rightarrow> string \<Rightarrow> real \<Rightarrow> 'h car"
  turnLeft :: "real \<Rightarrow> 'h car \<Rightarrow> 'h car"
  turnRight :: "real \<Rightarrow> 'h car \<Rightarrow> 'h car"
  accelerate :: "real \<Rightarrow> 'h car \<Rightarrow> 'h car"
  releaseAccelerator :: "real \<Rightarrow> 'h car \<Rightarrow> 'h car"
  brake :: "real \<Rightarrow> 'h car \<Rightarrow> 'h car"
  activateBoost :: "'h car \<Rightarrow> 'h car"
  deactivateBoost :: "'h car \<Rightarrow> 'h car"
  getSpeed :: "'h car \<Rightarrow> real"
  car_update :: "real \<Rightarrow> 'h car \<Rightarrow> 'h car"

text \<open>
  The state of an \<open>AICar\<close>: the inherited \<open>Car\<close> part (\<open>vehicle\<close>) and the fields the
  subclass declares. The methods of \<open>Car\<close> act on \<open>vehicle\<close> only.
\<close>

record 'h aicar =
  vehicle :: "'h car"
  track :: track
  difficulty :: real
  reactionTime :: real
  lastDecision :: real
  avoidanceSensors :: "sensor list"
  racingLine :: "waypoint list"
  aggressiveness :: real
  driftProbability :: real
  preferredSpeed :: real

text \<open>
  A call of a state-changing method of \<open>Car\<close> made by \<open>AICar\<close>. The decision pass and
  \<open>update\<close> return the calls they made, in order, beside the new state.
\<close>

datatype control =
  TurnLeft real
  | TurnRight real
  | Accelerate real
  | ReleaseAccelerator real
  | Brake real
  | ActivateBoost
  | DeactivateBoost
  | Update real

fun exec :: "'h car_class \<Rightarrow> control \<Rightarrow> 'h car \<Rightarrow> 'h car" where
  "exec C (TurnLeft dt) = turnLeft C dt"
| "exec C (TurnRight dt) = turnRight C dt"
| "exec C (Accelerate dt) = accelerate C dt"
| "exec C (ReleaseAccelerator dt) = releaseAccelerator C dt"
| "exec C (Brake dt) = brake C dt"
| "exec C ActivateBoost = activateBoost C"
| "exec C DeactivateBoost = deactivateBoost C"
| "exec C (Update dt) = car_update C dt"

text \<open>\<open>this.m(...)\<close> for a method \<open>m\<close> of \<open>Car\<close>: run it on the vehicle and record it.\<close>

definition invoke ::
  "'h car_class \<Rightarrow> control \<Rightarrow> control list \<times> 'h aicar \<Rightarrow> control list \<times> 'h aicar" where
  "invoke C c = (\<lambda>(calls, s). (calls @ [c], s\<lparr>vehicle := exec C c (vehicle s)\<rparr>))"

text \<open>The three values \<open>Math.random()\<close> can return in one decision pass, each in \<open>[0, 1)\<close>.\<close>

record rolls =
  drift_roll :: real
  stretch_roll :: real
  boost_roll :: real

subsection \<open>\<open>calculateRacingLine\<close>\<close>

text \<open>
  The inner loop \<open>for (let j = 0; j <= segments; j++)\<close>. The arguments \<open>nx\<close> and
  \<open>ny\<close> are \<open>None\<close> when the division \<open>dx / length\<close> is \<open>0 / 0\<close>; then
  \<open>px\<close>, \<open>py\<close> and both coordinates of the pushed point are \<open>NaN\<close>.
\<close>

definition segments :: nat where
  "segments = 5"

function segment_loop ::
  "point \<Rightarrow> real \<Rightarrow> real \<Rightarrow> (real \<times> real) option \<Rightarrow> nat \<Rightarrow> waypoint list \<Rightarrow> waypoint list" where
  "segment_loop checkpoint dx dy perp j points =
     (if j \<le> segments then
        let t = real j / real segments;
            curveFactor = sin (t * pi) * 30
        in segment_loop checkpoint dx dy perp (j + 1)
             (points @
               [case perp of
                  None \<Rightarrow> None
                | Some (px, py) \<Rightarrow>
                    Some \<lparr>point_x = point_x checkpoint + dx * t + px * curveFactor,
                          point_y = point_y checkpoint + dy * t + py * curveFactor\<rparr>])
      else points)"
  by pat_completeness auto
termination
  by (relation "measure (\<lambda>(checkpoint, dx, dy, perp, j, points). Suc segments - j)") auto

declare segment_loop.simps [simp del]

text \<open>
  The outer loop \<open>for (let i = 0; i < this.track.checkpoints.length; i++)\<close>. Over
  the reals \<open>length = 0\<close> only when \<open>dx\<close> and \<open>dy\<close> are both \<open>0\<close>, and then
  \<open>nx\<close> and \<open>ny\<close> are \<open>0 / 0 = NaN\<close>. (In doubles \<open>length\<close> is also \<open>0\<close>
  when both squares underflow; that case is outside the model.)
\<close>

function checkpoint_loop :: "point list \<Rightarrow> nat \<Rightarrow> waypoint list \<Rightarrow> waypoint list" where
  "checkpoint_loop cps i points =
     (if i < length cps then
        let checkpoint = cps ! i;
            nextCheckpoint = cps ! ((i + 1) mod length cps);
            dx = point_x nextCheckpoint - point_x checkpoint;
            dy = point_y nextCheckpoint - point_y checkpoint;
            len = sqrt (dx * dx + dy * dy);
            n = (if len = 0 then None else Some (dx / len, dy / len));
            perp = (case n of None \<Rightarrow> None | Some (nx, ny) \<Rightarrow> Some (- ny, nx))
        in checkpoint_loop cps (i + 1) (segment_loop checkpoint dx dy perp 0 points)
      else points)"
  by pat_completeness auto
termination
  by (relation "measure (\<lambda>(cps, i, points). length cps - i)") auto

declare checkpoint_loop.simps [simp del]

definition calculateRacingLine :: "track \<Rightarrow> waypoint list" where
  "calculateRacingLine trk = checkpoint_loop (checkpoints trk) 0 []"

subsection \<open>The constructor\<close>

text \<open>
  \<open>new AICar(x, y, width, height, color, angle, track, difficulty)\<close>; the last argument
  is optional (\<open>None\<close>) and defaults to \<open>0.85\<close>.
\<close>

definition newAICar ::
  "'h car_class \<Rightarrow> real \<Rightarrow> real \<Rightarrow> real \<Rightarrow> real \<Rightarrow> string \<Rightarrow> real \<Rightarrow> track \<Rightarrow> real option
     \<Rightarrow> 'h aicar" where
  "newAICar C x y width height color ang trk difficulty_arg =
     (let d = (case difficulty_arg of None \<Rightarrow> 0.85 | Some v \<Rightarrow> v);
          base = construct C x y width height color ang
      in \<lparr>vehicle = base\<lparr>targetCheckpoint := Some 0, maxVelocity := 280 + d * 40\<rparr>,
          track = trk,
          difficulty = d,
          reactionTime = 0.2 - d * 0.1,
          lastDecision = 0,
          avoidanceSensors =
            [\<lparr>sensor_angle = - 0.5, sensor_distance = 80\<rparr>,
             \<lparr>sensor_angle = 0, sensor_distance = 100\<rparr>,
             \<lparr>sensor_angle = 0.5, sensor_distance = 80\<rparr>],
          racingLine = calculateRacingLine trk,
          aggressiveness = d * 0.8,
          driftProbability = d * 0.3,
          preferredSpeed = 220 + d * 80\<rparr>)"

subsection \<open>\<open>getTargetRacingPoint\<close>\<close>

text \<open>
  The scan for the closest point of the racing line. \<open>closestDist\<close> starts at
  \<open>Infinity\<close> (\<open>None\<close>). The distance to a \<open>NaN\<close> point is \<open>NaN\<close>, and
  \<open>NaN < closestDist\<close> is false. The variable \<open>closestPoint\<close> of the source is
  written but never read, and is left out.
\<close>

fun closest_loop ::
  "real \<Rightarrow> real \<Rightarrow> waypoint list \<Rightarrow> nat \<Rightarrow> real option \<times> nat \<Rightarrow> real option \<times> nat" where
  "closest_loop cx cy [] i acc = acc"
| "closest_loop cx cy (p # ps) i (closestDist, closestIndex) =
     closest_loop cx cy ps (i + 1)
       (case p of
          None \<Rightarrow> (closestDist, closestIndex)
        | Some q \<Rightarrow>
            let dx = point_x q - cx;
                dy = point_y q - cy;
                dist = sqrt (dx * dx + dy * dy)
            in if (case closestDist of None \<Rightarrow> True | Some d \<Rightarrow> dist < d)
               then (Some dist, i)
               else (closestDist, closestIndex))"

text \<open>
  The result is \<open>None\<close> for \<open>undefined\<close>: with an empty racing line the index
  \<open>10 % 0\<close> is \<open>NaN\<close> and \<open>racingLine[NaN]\<close> is \<open>undefined\<close>.
\<close>

definition getTargetRacingPoint :: "'h aicar \<Rightarrow> waypoint option" where
  "getTargetRacingPoint s =
     (let closestIndex =
            snd (closest_loop (car_x (vehicle s)) (car_y (vehicle s)) (racingLine s) 0 (None, 0));
          lookAheadIndex = (closestIndex + 10) mod length (racingLine s)
      in if racingLine s = [] then None else Some (racingLine s ! lookAheadIndex))"

subsection \<open>The heading error\<close>

text \<open>
  \<open>Math.atan2(y, x)\<close> as \<open>makeDecisions\<close> calls it, with \<open>y = dx\<close> and \<open>x = -dy\<close>.
  Neither \<open>dx\<close> nor \<open>dy\<close> is \<open>-0\<close> (a difference is \<open>-0\<close> only when its minuend
  is), so a zero \<open>y\<close> is \<open>+0\<close> and a zero \<open>x\<close> is \<open>-0\<close>. The last case is
  \<open>Math.atan2(+0, -0) = Math.PI\<close>: the car is on its target.
\<close>

definition atan2 :: "real \<Rightarrow> real \<Rightarrow> real" where
  "atan2 y x =
     (if 0 < x then arctan (y / x)
      else if x < 0 then (if 0 \<le> y then arctan (y / x) + pi else arctan (y / x) - pi)
      else if 0 < y then pi / 2
      else if y < 0 then - (pi / 2)
      else pi)"

text \<open>\<open>while (angleDiff > Math.PI) angleDiff -= Math.PI * 2\<close>\<close>

function wrap_down :: "real \<Rightarrow> real" where
  "wrap_down angleDiff = (if angleDiff > pi then wrap_down (angleDiff - pi * 2) else angleDiff)"
  by pat_completeness auto
termination
proof (relation "measure (\<lambda>a. nat \<lceil>a / pi\<rceil>)")
  show "wf (measure (\<lambda>a. nat \<lceil>a / pi\<rceil>))"
    by simp
next
  fix angleDiff :: real
  assume gt: "pi < angleDiff"
  have "(angleDiff - pi * 2) / pi = angleDiff / pi - 2"
    by (simp add: diff_divide_distrib)
  then have c: "\<lceil>(angleDiff - pi * 2) / pi\<rceil> = \<lceil>angleDiff / pi\<rceil> - 2"
    by simp
  have one: "1 < angleDiff / pi"
    using gt by (simp add: pos_less_divide_eq)
  then have pos: "0 < angleDiff / pi"
    by linarith
  from one have "1 < \<lceil>angleDiff / pi\<rceil>"
    by (simp only: less_ceiling_iff of_int_1)
  with c pos show "(angleDiff - pi * 2, angleDiff) \<in> measure (\<lambda>a. nat \<lceil>a / pi\<rceil>)"
    by simp
qed

declare wrap_down.simps [simp del]

text \<open>\<open>while (angleDiff < -Math.PI) angleDiff += Math.PI * 2\<close>\<close>

function wrap_up :: "real \<Rightarrow> real" where
  "wrap_up angleDiff = (if angleDiff < - pi then wrap_up (angleDiff + pi * 2) else angleDiff)"
  by pat_completeness auto
termination
proof (relation "measure (\<lambda>a. nat \<lceil>- (a / pi)\<rceil>)")
  show "wf (measure (\<lambda>a. nat \<lceil>- (a / pi)\<rceil>))"
    by simp
next
  fix angleDiff :: real
  assume lt: "angleDiff < - pi"
  have "- ((angleDiff + pi * 2) / pi) = - (angleDiff / pi) - 2"
    by (simp add: add_divide_distrib)
  then have c: "\<lceil>- ((angleDiff + pi * 2) / pi)\<rceil> = \<lceil>- (angleDiff / pi)\<rceil> - 2"
    by simp
  have "angleDiff / pi < - 1"
    using lt by (simp add: pos_divide_less_eq)
  then have one: "1 < - (angleDiff / pi)"
    by simp
  then have "1 < \<lceil>- (angleDiff / pi)\<rceil>"
    by (simp only: less_ceiling_iff of_int_1)
  with c one show "(angleDiff + pi * 2, angleDiff) \<in> measure (\<lambda>a. nat \<lceil>- (a / pi)\<rceil>)"
    by simp
qed

declare wrap_up.simps [simp del]

text \<open>The two loops of \<open>makeDecisions\<close>, one after the other.\<close>

definition normalizeAngle :: "real \<Rightarrow> real" where
  "normalizeAngle angleDiff = wrap_up (wrap_down angleDiff)"

text \<open>
  Lines 116 to 122 of \<open>makeDecisions\<close>: the value of \<open>angleDiff\<close> after the loops.
  For the \<open>NaN\<close> target the bearing and the difference are \<open>NaN\<close> (\<open>None\<close>), and
  neither loop runs.
\<close>

definition headingError :: "'h aicar \<Rightarrow> waypoint \<Rightarrow> real option" where
  "headingError s racingTarget =
     (case racingTarget of
        None \<Rightarrow> None
      | Some p \<Rightarrow>
          let dx = point_x p - car_x (vehicle s);
              dy = point_y p - car_y (vehicle s);
              targetAngle = atan2 dx (- dy)
          in Some (normalizeAngle (targetAngle - angle (vehicle s))))"

text \<open>Comparisons of a number that may be \<open>NaN\<close> with a finite number: false on \<open>NaN\<close>.\<close>

definition nan_gt :: "real option \<Rightarrow> real \<Rightarrow> bool" where
  "nan_gt a c = (case a of None \<Rightarrow> False | Some v \<Rightarrow> v > c)"

definition nan_lt :: "real option \<Rightarrow> real \<Rightarrow> bool" where
  "nan_lt a c = (case a of None \<Rightarrow> False | Some v \<Rightarrow> v < c)"

subsection \<open>Sensors and distances\<close>

definition checkSensors :: "'h aicar \<Rightarrow> real list" where
  "checkSensors s =
     map (\<lambda>sensor.
            let sensorAngle = angle (vehicle s) + sensor_angle sensor;
                projectedX = car_x (vehicle s) + sin sensorAngle * sensor_distance sensor;
                projectedY = car_y (vehicle s) - cos sensorAngle * sensor_distance sensor;
                isOutOfBounds = isPointOutOfBounds (track s) projectedX projectedY
            in if \<not> isOutOfBounds then 1.0 else 0.5)
         (avoidanceSensors s)"

definition distanceToPlayer :: "'h aicar \<Rightarrow> 'h car \<Rightarrow> real" where
  "distanceToPlayer s playerCar =
     (let dx = car_x playerCar - car_x (vehicle s);
          dy = car_y playerCar - car_y (vehicle s)
      in sqrt (dx * dx + dy * dy))"

text \<open>
  \<open>None\<close> is the \<open>TypeError\<close> of \<open>checkpoint.x\<close> when
  \<open>this.track.checkpoints[this.targetCheckpoint]\<close> is \<open>undefined\<close>.
\<close>

definition distanceToCheckpoint :: "'h aicar \<Rightarrow> real option" where
  "distanceToCheckpoint s =
     (case targetCheckpoint (vehicle s) of
        None \<Rightarrow> Some 1000
      | Some i \<Rightarrow>
          if i < length (checkpoints (track s)) then
            let checkpoint = checkpoints (track s) ! i;
                dx = point_x checkpoint - car_x (vehicle s);
                dy = point_y checkpoint - car_y (vehicle s)
            in Some (sqrt (dx * dx + dy * dy))
          else None)"

definition isAheadOf :: "'h aicar \<Rightarrow> 'h car \<Rightarrow> bool option" where
  "isAheadOf s otherCar =
     (case (targetCheckpoint (vehicle s), targetCheckpoint otherCar) of
        (Some mine, Some theirs) \<Rightarrow>
          if mine > theirs then Some True
          else if mine = theirs then
            do {
              myDistance \<leftarrow> distanceToCheckpoint s;
              if mine < length (checkpoints (track s)) then
                let dx = point_x (checkpoints (track s) ! mine) - car_x otherCar;
                    dy = point_y (checkpoints (track s) ! mine) - car_y otherCar;
                    otherDistance = sqrt (dx * dx + dy * dy)
                in Some (myDistance < otherDistance)
              else None
            }
          else Some False
      | _ \<Rightarrow> Some False)"

subsection \<open>\<open>makeDecisions\<close>\<close>

text \<open>Lines 128 to 132: the steering call, if any.\<close>

definition steer ::
  "'h car_class \<Rightarrow> real option \<Rightarrow> bool \<Rightarrow> 'h aicar \<Rightarrow> control list \<times> 'h aicar" where
  "steer C angleDiff hasCollisionAhead s =
     (let steeringFactor = (if hasCollisionAhead then 1.5 else 1.0)
      in if nan_gt angleDiff 0.1 then invoke C (TurnRight (reactionTime s * steeringFactor)) ([], s)
         else if nan_lt angleDiff (- 0.1) then
           invoke C (TurnLeft (reactionTime s * steeringFactor)) ([], s)
         else ([], s))"

text \<open>
  Lines 134 to 155 are the branch taken when no collision is ahead and the heading error
  is inside the envelope. Lines 135 to 139 of it: the drift flag.
\<close>

definition decideDrift :: "'h car_class \<Rightarrow> rolls \<Rightarrow> real option \<Rightarrow> 'h aicar \<Rightarrow> 'h aicar" where
  "decideDrift C rnd angleDiff s =
     (if nan_gt (map_option abs angleDiff) 0.4
         \<and> getSpeed C (vehicle s) > preferredSpeed s * 0.7
         \<and> drift_roll rnd < driftProbability s
      then s\<lparr>vehicle := (vehicle s)\<lparr>drifting := True\<rparr>\<rparr>
      else s\<lparr>vehicle := (vehicle s)\<lparr>drifting := False\<rparr>\<rparr>)"

text \<open>
  Lines 135 to 155. \<open>||\<close> and \<open>&&\<close> evaluate their right operand only when needed, so
  \<open>distanceToCheckpoint\<close> runs only when the car is ahead of the player.
\<close>

definition cruise ::
  "'h car_class \<Rightarrow> 'h car \<Rightarrow> rolls \<Rightarrow> real option \<Rightarrow> control list \<times> 'h aicar
     \<Rightarrow> (control list \<times> 'h aicar) option" where
  "cruise C playerCar rnd angleDiff st =
     (let (calls, s) = st;
          s1 = decideDrift C rnd angleDiff s;
          st2 = (if getSpeed C (vehicle s1) < preferredSpeed s1
                 then invoke C (Accelerate (reactionTime s1)) (calls, s1)
                 else invoke C (ReleaseAccelerator (reactionTime s1)) (calls, s1));
          s2 = snd st2
      in do {
           isAheadOfPlayer \<leftarrow> isAheadOf s2 playerCar;
           shouldBoost \<leftarrow>
             (if \<not> isAheadOfPlayer then Some True
              else do {
                d \<leftarrow> distanceToCheckpoint s2;
                Some (d > 150 \<and> stretch_roll rnd < difficulty s2 * 0.2)
              });
           Some (if shouldBoost \<and> boost_roll rnd < aggressiveness s2 * 0.2
                 then invoke C ActivateBoost st2
                 else invoke C DeactivateBoost st2)
         })"

text \<open>Lines 157 to 159: the other branch.\<close>

definition recover :: "'h car_class \<Rightarrow> control list \<times> 'h aicar \<Rightarrow> control list \<times> 'h aicar" where
  "recover C st =
     (let (calls, s) = invoke C DeactivateBoost (invoke C (Brake (reactionTime (snd st))) st)
      in (calls, s\<lparr>vehicle := (vehicle s)\<lparr>drifting := False\<rparr>\<rparr>))"

text \<open>Lines 162 to 166.\<close>

definition adaptAggressiveness :: "'h car \<Rightarrow> 'h aicar \<Rightarrow> 'h aicar" where
  "adaptAggressiveness playerCar s =
     (if distanceToPlayer s playerCar < 100
      then s\<lparr>aggressiveness := min 1.0 (aggressiveness s + 0.1)\<rparr>
      else s\<lparr>aggressiveness := difficulty s * 0.8\<rparr>)"

definition makeDecisions ::
  "'h car_class \<Rightarrow> 'h car \<Rightarrow> rolls \<Rightarrow> 'h aicar \<Rightarrow> (control list \<times> 'h aicar) option" where
  "makeDecisions C playerCar rnd s =
     do {
       racingTarget \<leftarrow> getTargetRacingPoint s;
       let angleDiff = headingError s racingTarget;
       let sensorReadings = checkSensors s;
       let hasCollisionAhead = list_ex (\<lambda>r. r < 1.0) sensorReadings;
       let st1 = steer C angleDiff hasCollisionAhead s;
       (calls, s2) \<leftarrow>
         (if \<not> hasCollisionAhead \<and> nan_lt (map_option abs angleDiff) 0.8
          then cruise C playerCar rnd angleDiff st1
          else Some (recover C st1));
       Some (calls, adaptAggressiveness playerCar s2)
     }"

subsection \<open>\<open>update\<close>\<close>

text \<open>Lines 107 to 110: the checkpoint cursor after the motion step.\<close>

definition advanceCheckpoint :: "'h aicar \<Rightarrow> 'h aicar option" where
  "advanceCheckpoint s =
     do {
       distance \<leftarrow> distanceToCheckpoint s;
       Some (if distance < 50
             then s\<lparr>vehicle := (vehicle s)\<lparr>targetCheckpoint :=
                    map_option (\<lambda>i. (i + 1) mod length (checkpoints (track s)))
                      (targetCheckpoint (vehicle s))\<rparr>\<rparr>
             else s)
     }"

text \<open>\<open>update(deltaTime, playerCar?)\<close>; an omitted \<open>playerCar\<close> is \<open>None\<close>.\<close>

definition update ::
  "'h car_class \<Rightarrow> real \<Rightarrow> 'h car option \<Rightarrow> rolls \<Rightarrow> 'h aicar
     \<Rightarrow> (control list \<times> 'h aicar) option" where
  "update C deltaTime playerCar rnd s =
     do {
       let s1 = s\<lparr>lastDecision := lastDecision s + deltaTime\<rparr>;
       st2 \<leftarrow>
         (case playerCar of
            Some p \<Rightarrow>
              if lastDecision s1 \<ge> reactionTime s1
              then makeDecisions C p rnd (s1\<lparr>lastDecision := 0\<rparr>)
              else Some ([], s1)
          | None \<Rightarrow> Some ([], s1));
       let (calls, s3) = invoke C (Update deltaTime) st2;
       s4 \<leftarrow> advanceCheckpoint s3;
       Some (calls, s4)
     }"

subsection \<open>Notions used in the statements\<close>

text \<open>
  The value of \<open>length\<close> (the divisor of \<open>nx\<close> and \<open>ny\<close>) in iteration \<open>i\<close> of the
  outer loop of \<open>calculateRacingLine\<close>, and the points that iteration pushes.
\<close>

definition leg_length :: "point list \<Rightarrow> nat \<Rightarrow> real" where
  "leg_length cps i =
     (let dx = point_x (cps ! ((i + 1) mod length cps)) - point_x (cps ! i);
          dy = point_y (cps ! ((i + 1) mod length cps)) - point_y (cps ! i)
      in sqrt (dx * dx + dy * dy))"

definition leg_points :: "point list \<Rightarrow> nat \<Rightarrow> waypoint list" where
  "leg_points cps i =
     (let dx = point_x (cps ! ((i + 1) mod length cps)) - point_x (cps ! i);
          dy = point_y (cps ! ((i + 1) mod length cps)) - point_y (cps ! i)
      in segment_loop (cps ! i) dx dy
           (if leg_length cps i = 0 then None
            else Some (- (dy / leg_length cps i), dx / leg_length cps i)) 0 [])"

text \<open>The Euclidean distance from a car to a point.\<close>

definition euclidean :: "'h car \<Rightarrow> point \<Rightarrow> real" where
  "euclidean c p = sqrt ((point_x p - car_x c)\<^sup>2 + (point_y p - car_y c)\<^sup>2)"

text \<open>
  Lines 124 and 125 of \<open>makeDecisions\<close>: the value of \<open>hasCollisionAhead\<close>, the
  imminent-collision flag of a decision pass, for the state the pass starts in.
\<close>

definition hasCollisionAhead :: "'h aicar \<Rightarrow> bool" where
  "hasCollisionAhead s = list_ex (\<lambda>r. r < 1.0) (checkSensors s)"

text \<open>
  Whether the projected endpoint of a sensor ray of angular offset \<open>a\<close> and range \<open>d\<close>
  is out of bounds.
\<close>

definition ray_out_of_bounds :: "'h aicar \<Rightarrow> real \<Rightarrow> real \<Rightarrow> bool" where
  "ray_out_of_bounds s a d =
     isPointOutOfBounds (track s)
       (car_x (vehicle s) + sin (angle (vehicle s) + a) * d)
       (car_y (vehicle s) - cos (angle (vehicle s) + a) * d)"

text \<open>
  The steering call of a decision pass with heading error \<open>angleDiff\<close>, as the list of
  calls it makes: a turn of duration \<open>dt\<close> to the right, to the left, or none.
\<close>

definition steeringCall :: "real option \<Rightarrow> real \<Rightarrow> control list" where
  "steeringCall angleDiff dt =
     (if nan_gt angleDiff 0.1 then [TurnRight dt]
      else if nan_lt angleDiff (- 0.1) then [TurnLeft dt]
      else [])"

text \<open>The vehicle after a list of calls of methods of \<open>Car\<close>, made in order.\<close>

definition run :: "'h car_class \<Rightarrow> control list \<Rightarrow> 'h car \<Rightarrow> 'h car" where
  "run C calls v = foldl (\<lambda>v c. exec C c v) v calls"

text \<open>
  The value \<open>this.getSpeed()\<close> has at line 141, where the throttle is chosen: the speed
  after the steering call and the assignment of the drift flag.
\<close>

definition speedAtThrottle :: "'h car_class \<Rightarrow> rolls \<Rightarrow> 'h aicar \<Rightarrow> waypoint \<Rightarrow> real" where
  "speedAtThrottle C rnd s racingTarget =
     getSpeed C (vehicle (decideDrift C rnd (headingError s racingTarget)
       (snd (steer C (headingError s racingTarget) (hasCollisionAhead s) s))))"

text \<open>The fields of an \<open>AICar\<close> that are written by the constructor only.\<close>

definition settings ::
  "'h aicar \<Rightarrow> track \<times> real \<times> real \<times> sensor list \<times> waypoint list \<times> real \<times> real" where
  "settings s =
     (track s, difficulty s, reactionTime s, avoidanceSensors s, racingLine s,
      driftProbability s, preferredSpeed s)"

text \<open>
  No method of \<open>Car\<close> writes \<open>targetCheckpoint\<close>: the cursor of a vehicle is moved by
  \<open>AICar.update\<close> (and by the track's checkpoint test) only.
\<close>

definition keeps_cursor :: "'h car_class \<Rightarrow> bool" where
  "keeps_cursor C = (\<forall>c ctl. targetCheckpoint (exec C ctl c) = targetCheckpoint c)"

text \<open>A run of decision passes, one per opponent state and triple of random values.\<close>

fun decisionPasses ::
  "'h car_class \<Rightarrow> ('h car \<times> rolls) list \<Rightarrow> 'h aicar \<Rightarrow> 'h aicar option" where
  "decisionPasses C [] s = Some s"
| "decisionPasses C ((playerCar, rnd) # rest) s =
     do {
       (calls, s') \<leftarrow> makeDecisions C playerCar rnd s;
       decisionPasses C rest s'
     }"

text \<open>
  A run of calls of \<open>update\<close>, one per tick: the elapsed time, the opponent (if given)
  and the random values of the tick.
\<close>

fun updates ::
  "'h car_class \<Rightarrow> (real \<times> 'h car option \<times> rolls) list \<Rightarrow> 'h aicar \<Rightarrow> 'h aicar option" where
  "updates C [] s = Some s"
| "updates C ((deltaTime, playerCar, rnd) # rest) s =
     do {
       (calls, s') \<leftarrow> update C deltaTime playerCar rnd s;
       updates C rest s'
     }"

subsection \<open>A concrete \<open>Car\<close>, track and driver for the examples\<close>

text \<open>
  Modelled from the spec: class \<open>Car\<close> (src/utils/Car.ts is not part of the sources at
  hand). The hidden state is the speed and the boost flag; \<open>update\<close> integrates the
  position as \<open>position += speed * dt * (sin heading, - cos heading)\<close>. The rates of
  acceleration, braking, drag and turning are not given by the spec; the values here
  are placeholders, and only the examples use this class.
\<close>

definition plainCar :: "(real \<times> bool) car_class" where
  "plainCar =
     \<lparr>construct = (\<lambda>x y width height color a.
        \<lparr>car_x = x, car_y = y, angle = a, drifting = False, maxVelocity = 300,
         targetCheckpoint = None, hidden = (0, False)\<rparr>),
      turnLeft = (\<lambda>dt c. c\<lparr>angle := angle c - 3 * dt\<rparr>),
      turnRight = (\<lambda>dt c. c\<lparr>angle := angle c + 3 * dt\<rparr>),
      accelerate = (\<lambda>dt c.
        c\<lparr>hidden := (min (maxVelocity c) (fst (hidden c) + 200 * dt), snd (hidden c))\<rparr>),
      releaseAccelerator = (\<lambda>dt c.
        c\<lparr>hidden := (max 0 (fst (hidden c) - 50 * dt), snd (hidden c))\<rparr>),
      brake = (\<lambda>dt c. c\<lparr>hidden := (max 0 (fst (hidden c) - 300 * dt), snd (hidden c))\<rparr>),
      activateBoost = (\<lambda>c. c\<lparr>hidden := (fst (hidden c), True)\<rparr>),
      deactivateBoost = (\<lambda>c. c\<lparr>hidden := (fst (hidden c), False)\<rparr>),
      getSpeed = (\<lambda>c. fst (hidden c)),
      car_update = (\<lambda>dt c.
        c\<lparr>car_x := car_x c + fst (hidden c) * dt * sin (angle c),
          car_y := car_y c - fst (hidden c) * dt * cos (angle c)\<rparr>)\<rparr>"

text \<open>A square circuit of four checkpoints; the argument is the answer of the boundary test.\<close>

definition squareTrack :: "bool \<Rightarrow> track" where
  "squareTrack oob =
     \<lparr>checkpoints =
        [\<lparr>point_x = 0, point_y = 0\<rparr>, \<lparr>point_x = 100, point_y = 0\<rparr>,
         \<lparr>point_x = 100, point_y = 100\<rparr>, \<lparr>point_x = 0, point_y = 100\<rparr>],
      isPointOutOfBounds = (\<lambda>x y. oob)\<rparr>"

text \<open>
  A driver of difficulty \<open>0.85\<close> at rest at position \<open>(x, y)\<close> with heading \<open>a\<close>, on
  the square circuit, chasing a racing line of the single point \<open>(0, -10)\<close>.
\<close>

definition driverAt :: "real \<Rightarrow> real \<Rightarrow> real \<Rightarrow> bool \<Rightarrow> (real \<times> bool) aicar" where
  "driverAt x y a oob =
     \<lparr>vehicle = \<lparr>car_x = x, car_y = y, angle = a, drifting = False, maxVelocity = 314,
                 targetCheckpoint = Some 0, hidden = (0, False)\<rparr>,
      track = squareTrack oob,
      difficulty = 0.85,
      reactionTime = 0.115,
      lastDecision = 0,
      avoidanceSensors =
        [\<lparr>sensor_angle = - 0.5, sensor_distance = 80\<rparr>,
         \<lparr>sensor_angle = 0, sensor_distance = 100\<rparr>,
         \<lparr>sensor_angle = 0.5, sensor_distance = 80\<rparr>],
      racingLine = [Some \<lparr>point_x = 0, point_y = - 10\<rparr>],
      aggressiveness = 0.68,
      driftProbability = 0.255,
      preferredSpeed = 288\<rparr>"

text \<open>An example driver moving at speed \<open>v\<close>, with boost flag \<open>b\<close>.\<close>

definition withSpeed :: "real \<Rightarrow> bool \<Rightarrow> (real \<times> bool) aicar \<Rightarrow> (real \<times> bool) aicar" where
  "withSpeed v b s = s\<lparr>vehicle := (vehicle s)\<lparr>hidden := (v, b)\<rparr>\<rparr>"

text \<open>A player's car at rest at \<open>(x, y)\<close>, racing towards checkpoint \<open>i\<close>.\<close>

definition playerAt :: "real \<Rightarrow> real \<Rightarrow> nat option \<Rightarrow> (real \<times> bool) car" where
  "playerAt x y i =
     \<lparr>car_x = x, car_y = y, angle = 0, drifting = False, maxVelocity = 300,
      targetCheckpoint = i, hidden = (0, False)\<rparr>"

definition someRolls :: rolls where
  "someRolls = \<lparr>drift_roll = 0.5, stretch_roll = 0.5, boost_roll = 0.5\<rparr>"

section \<open>Properties\<close>

subsection \<open>The racing line\<close>

text \<open>The loops of \<open>calculateRacingLine\<close> as list expressions.\<close>

lemma segment_loop_eq:
  "segment_loop cp dx dy perp j pts =
     pts @ map (\<lambda>k. case perp of
                  None \<Rightarrow> None
                | Some (px, py) \<Rightarrow>
                    Some \<lparr>point_x = point_x cp + dx * (real k / real segments)
                                     + px * (sin (real k / real segments * pi) * 30),
                          point_y = point_y cp + dy * (real k / real segments)
                                     + py * (sin (real k / real segments * pi) * 30)\<rparr>)
              [j..<Suc segments]"
proof (induction cp dx dy perp j pts rule: segment_loop.induct)
  case (1 checkpoint dx dy perp j points)
  show ?case
  proof (cases "j \<le> segments")
    case True
    then have up: "[j..<Suc segments] = j # [Suc j..<Suc segments]"
      by (simp add: upt_conv_Cons)
    show ?thesis
      using True "1.IH" [OF True refl refl]
      by (subst segment_loop.simps) (simp add: up Let_def del: upt_Suc)
  next
    case False
    then show ?thesis
      by (subst segment_loop.simps) simp
  qed
qed

lemma segment_loop_append:
  "segment_loop cp dx dy perp j pts = pts @ segment_loop cp dx dy perp j []"
  by (simp add: segment_loop_eq)

lemma length_segment_loop:
  "length (segment_loop cp dx dy perp j pts) = length pts + (Suc segments - j)"
  by (simp add: segment_loop_eq Suc_diff_le)

lemma length_leg_points: "length (leg_points cps i) = Suc segments"
  by (simp add: leg_points_def Let_def length_segment_loop)

lemma checkpoint_loop_step:
  assumes "i < length cps"
  shows "checkpoint_loop cps i pts = checkpoint_loop cps (Suc i) (pts @ leg_points cps i)"
proof -
  have "checkpoint_loop cps i pts =
        checkpoint_loop cps (i + 1)
          (segment_loop (cps ! i)
             (point_x (cps ! ((i + 1) mod length cps)) - point_x (cps ! i))
             (point_y (cps ! ((i + 1) mod length cps)) - point_y (cps ! i))
             (if leg_length cps i = 0 then None
              else Some (- ((point_y (cps ! ((i + 1) mod length cps)) - point_y (cps ! i))
                             / leg_length cps i),
                         (point_x (cps ! ((i + 1) mod length cps)) - point_x (cps ! i))
                             / leg_length cps i)) 0 pts)"
    using assms by (subst checkpoint_loop.simps) (simp add: Let_def leg_length_def)
  also have "\<dots> = checkpoint_loop cps (Suc i) (pts @ leg_points cps i)"
    by (subst segment_loop_append) (simp add: leg_points_def Let_def)
  finally show ?thesis .
qed

lemma checkpoint_loop_eq:
  "checkpoint_loop cps i pts = pts @ concat (map (leg_points cps) [i..<length cps])"
proof (induction "length cps - i" arbitrary: i pts)
  case 0
  then show ?case
    by (subst checkpoint_loop.simps) simp
next
  case (Suc n)
  then have less: "i < length cps" and n: "n = length cps - Suc i"
    by simp_all
  have up: "[i..<length cps] = i # [Suc i..<length cps]"
    using less by (simp add: upt_conv_Cons)
  show ?case
    by (simp add: checkpoint_loop_step [OF less] Suc.hyps(1) [OF n] up)
qed

lemma calculateRacingLine_eq:
  "calculateRacingLine trk =
     concat (map (leg_points (checkpoints trk)) [0..<length (checkpoints trk)])"
  by (simp add: calculateRacingLine_def checkpoint_loop_eq)

lemma length_concat_const:
  "(\<And>x. x \<in> set xs \<Longrightarrow> length (f x) = k) \<Longrightarrow> length (concat (map f xs)) = k * length xs"
  by (induction xs) simp_all

lemma length_calculateRacingLine:
  "length (calculateRacingLine trk) = Suc segments * length (checkpoints trk)"
  by (simp add: calculateRacingLine_eq length_concat_const [where k = "Suc segments"] length_leg_points)

text \<open>
  C6: the racing line computed for a track of \<open>c\<close> checkpoints has \<open>c * (s + 1)\<close>
  points, where \<open>s = 5\<close> is the number of segments of a leg; that is \<open>6 * c\<close> points.
  This is also the length of the racing line a newly constructed driver holds. It holds
  for every track, whether or not consecutive checkpoints are distinct.
\<close>

theorem racing_line_length:
  "length (calculateRacingLine trk) = length (checkpoints trk) * (segments + 1)
   \<and> segments = 5
   \<and> length (calculateRacingLine trk) = 6 * length (checkpoints trk)
   \<and> length (racingLine (newAICar C x y w h col a trk d)) = 6 * length (checkpoints trk)"
  by (simp add: length_calculateRacingLine newAICar_def segments_def Let_def)

theorem racing_line_length_witness:
  "length (calculateRacingLine (squareTrack False)) = 24"
  using racing_line_length [of "squareTrack False" plainCar 0 0 0 0 "''red''" 0 None]
  by (simp add: squareTrack_def)

lemma leg_length_zero_iff:
  "leg_length cps i = 0 \<longleftrightarrow> cps ! ((i + 1) mod length cps) = cps ! i"
proof -
  have "leg_length cps i = 0 \<longleftrightarrow>
        point_x (cps ! ((i + 1) mod length cps)) = point_x (cps ! i)
        \<and> point_y (cps ! ((i + 1) mod length cps)) = point_y (cps ! i)"
    by (simp add: leg_length_def Let_def sum_squares_eq_zero_iff)
  then show ?thesis
    by (auto intro: point.equality)
qed

lemma leg_points_nan:
  "leg_length cps i = 0 \<Longrightarrow> leg_points cps i = replicate (Suc segments) None"
  by (simp add: leg_points_def Let_def segment_loop_eq map_replicate_const del: upt_Suc)

text \<open>A leg between coincident checkpoints puts \<open>NaN\<close> points into the racing line.\<close>

lemma racing_line_nan:
  assumes "i < length (checkpoints trk)"
    and "checkpoints trk ! ((i + 1) mod length (checkpoints trk)) = checkpoints trk ! i"
  shows "None \<in> set (calculateRacingLine trk)"
proof -
  have "leg_points (checkpoints trk) i = replicate (Suc segments) None"
    using assms(2) by (simp add: leg_points_nan leg_length_zero_iff)
  then have "None \<in> set (leg_points (checkpoints trk) i)"
    by simp
  then show ?thesis
    using assms(1) by (auto simp: calculateRacingLine_eq)
qed

subsection \<open>The constructor\<close>

text \<open>
  C4, as the code has it: the constructor stores the difficulty it is given, unchanged
  (\<open>0.85\<close> when the argument is omitted), with \<open>aggressiveness = difficulty * 0.8\<close> and
  \<open>driftProbability = difficulty * 0.3\<close>; nothing is clamped. So the three scalars lie
  in \<open>[0, 1]\<close> whenever the difficulty given lies in \<open>[0, 1]\<close>.
\<close>

theorem constructor_scalars:
  "difficulty (newAICar C x y w h col a trk None) = 0.85
   \<and> difficulty (newAICar C x y w h col a trk (Some d)) = d
   \<and> aggressiveness (newAICar C x y w h col a trk (Some d)) = d * 0.8
   \<and> driftProbability (newAICar C x y w h col a trk (Some d)) = d * 0.3
   \<and> (0 \<le> d \<and> d \<le> 1 \<longrightarrow>
        0 \<le> difficulty (newAICar C x y w h col a trk (Some d))
        \<and> difficulty (newAICar C x y w h col a trk (Some d)) \<le> 1
        \<and> 0 \<le> aggressiveness (newAICar C x y w h col a trk (Some d))
        \<and> aggressiveness (newAICar C x y w h col a trk (Some d)) \<le> 1
        \<and> 0 \<le> driftProbability (newAICar C x y w h col a trk (Some d))
        \<and> driftProbability (newAICar C x y w h col a trk (Some d)) \<le> 1)"
  by (simp add: newAICar_def Let_def)

theorem constructor_scalars_witness:
  "aggressiveness (newAICar plainCar 0 0 20 40 ''red'' 0 (squareTrack False) (Some 0.5)) = 0.4
   \<and> aggressiveness (newAICar plainCar 0 0 20 40 ''red'' 0 (squareTrack False) (Some 0.5)) \<le> 1
   \<and> driftProbability (newAICar plainCar 0 0 20 40 ''red'' 0 (squareTrack False) (Some 0.5)) \<le> 1"
  using constructor_scalars [of plainCar 0 0 20 40 "''red''" 0 "squareTrack False" "0.5"]
  by simp

text \<open>
  The claim C4 as stated fails: a difficulty of \<open>2\<close> is stored as \<open>2\<close>, and the
  aggressiveness derived from it is \<open>1.6\<close>.
\<close>

theorem constructor_clamp_counterexample:
  "difficulty (newAICar plainCar 0 0 20 40 ''red'' 0 (squareTrack False) (Some 2)) = 2
   \<and> \<not> difficulty (newAICar plainCar 0 0 20 40 ''red'' 0 (squareTrack False) (Some 2)) \<le> 1
   \<and> \<not> aggressiveness (newAICar plainCar 0 0 20 40 ''red'' 0 (squareTrack False) (Some 2)) \<le> 1"
  by (simp add: newAICar_def Let_def)

subsection \<open>The heading error\<close>

lemma wrap_down_le: "wrap_down a \<le> pi"
  by (induction a rule: wrap_down.induct) (subst wrap_down.simps, simp)

lemma wrap_down_low: "a \<le> pi \<Longrightarrow> wrap_down a = a"
  by (subst wrap_down.simps) simp

lemma wrap_up_bounds: "b \<le> pi \<Longrightarrow> - pi \<le> wrap_up b \<and> wrap_up b \<le> pi"
  by (induction b rule: wrap_up.induct) (subst wrap_up.simps, subst (2) wrap_up.simps, simp)

lemma wrap_up_high: "- pi \<le> b \<Longrightarrow> wrap_up b = b"
  by (subst wrap_up.simps) simp

lemma normalizeAngle_bounds: "- pi \<le> normalizeAngle d \<and> normalizeAngle d \<le> pi"
  by (simp add: normalizeAngle_def wrap_up_bounds wrap_down_le)

lemma normalizeAngle_id: "- pi \<le> d \<Longrightarrow> d \<le> pi \<Longrightarrow> normalizeAngle d = d"
  by (simp add: normalizeAngle_def wrap_down_low wrap_up_high)

text \<open>The bearing lies in \<open>(- pi, pi]\<close>.\<close>

lemma atan2_range: "- pi < atan2 y x \<and> atan2 y x \<le> pi"
proof -
  have b: "- (pi / 2) < arctan (y / x)" "arctan (y / x) < pi / 2"
    by (rule arctan_lbound, rule arctan_ubound)
  consider "0 < x" | "x < 0" "0 \<le> y" | "x < 0" "y < 0" | "x = 0"
    by linarith
  then show ?thesis
  proof cases
    case 1
    then show ?thesis
      using b by (simp add: atan2_def)
  next
    case 2
    then have "y / x \<le> 0"
      by (simp add: divide_nonneg_neg)
    then have "arctan (y / x) \<le> 0"
      by (simp add: arctan_le_zero_iff)
    then show ?thesis
      using 2 b by (simp add: atan2_def)
  next
    case 3
    then have "0 < y / x"
      by (simp add: divide_neg_neg)
    then have "0 < arctan (y / x)"
      by (simp add: zero_less_arctan_iff)
    then show ?thesis
      using 3 b by (simp add: atan2_def)
  next
    case 4
    then have "atan2 y x = pi / 2 \<or> atan2 y x = - (pi / 2) \<or> atan2 y x = pi"
      by (simp add: atan2_def)
    then show ?thesis
      using pi_gt_zero by linarith
  qed
qed

text \<open>At most one turn is taken off or added when the difference is within two turns.\<close>

lemma normalizeAngle_one_turn:
  assumes "- (3 * pi) \<le> d" "d \<le> 3 * pi"
  shows "normalizeAngle d = (if d > pi then d - pi * 2 else if d < - pi then d + pi * 2 else d)"
proof -
  consider "d > pi" | "d < - pi" | "- pi \<le> d" "d \<le> pi"
    by linarith
  then show ?thesis
  proof cases
    case 1
    then have "wrap_down d = wrap_down (d - pi * 2)"
      by (subst wrap_down.simps) simp
    also have "\<dots> = d - pi * 2"
      using assms(2) by (intro wrap_down_low) simp
    finally have "wrap_down d = d - pi * 2" .
    moreover have "wrap_up (d - pi * 2) = d - pi * 2"
      using 1 by (intro wrap_up_high) simp
    ultimately show ?thesis
      using 1 by (simp add: normalizeAngle_def)
  next
    case 2
    then have "wrap_down d = d"
      by (intro wrap_down_low) (use pi_gt_zero in linarith)
    moreover have "wrap_up d = wrap_up (d + pi * 2)"
      using 2 by (subst wrap_up.simps) simp
    moreover have "wrap_up (d + pi * 2) = d + pi * 2"
      using assms(1) by (intro wrap_up_high) simp
    moreover have "\<not> pi < d"
      using 2 pi_gt_zero by linarith
    ultimately show ?thesis
      using 2 by (simp add: normalizeAngle_def)
  next
    case 3
    then show ?thesis
      by (simp add: normalizeAngle_id)
  qed
qed

text \<open>
  C5, as the code has it: let the heading be normalised (of magnitude at most \<open>pi\<close>, the
  invariant of the vehicle's heading). For every finite target point the heading error
  of a decision pass is the bearing \<open>atan2 dx (- dy)\<close> minus the heading, with one
  turn taken off when that is above \<open>pi\<close> and one turn added when it is below
  \<open>- pi\<close>; it lies in the closed interval \<open>[- pi, pi]\<close>.
\<close>

theorem heading_error_range:
  assumes "\<bar>angle (vehicle s)\<bar> \<le> pi"
  shows "headingError s (Some p) =
           Some (let d = atan2 (point_x p - car_x (vehicle s)) (- (point_y p - car_y (vehicle s)))
                           - angle (vehicle s)
                 in if d > pi then d - pi * 2 else if d < - pi then d + pi * 2 else d)
     \<and> (\<exists>a. headingError s (Some p) = Some a \<and> - pi \<le> a \<and> a \<le> pi)"
proof -
  let ?b = "atan2 (point_x p - car_x (vehicle s)) (- (point_y p - car_y (vehicle s)))"
  let ?d = "?b - angle (vehicle s)"
  have b: "- pi < ?b" "?b \<le> pi"
    using atan2_range by simp_all
  have d: "- (3 * pi) \<le> ?d" "?d \<le> 3 * pi"
    using b assms by (simp_all add: abs_le_iff)
  have h: "headingError s (Some p) = Some (normalizeAngle ?d)"
    by (simp add: headingError_def Let_def)
  then have "headingError s (Some p) =
           Some (let d = ?d in if d > pi then d - pi * 2 else if d < - pi then d + pi * 2 else d)"
    unfolding Let_def normalizeAngle_one_turn [OF d] .
  moreover have "\<exists>a. headingError s (Some p) = Some a \<and> - pi \<le> a \<and> a \<le> pi"
    using h normalizeAngle_bounds [of ?d] by simp
  ultimately show ?thesis
    by (rule conjI)
qed

theorem heading_error_range_witness:
  "headingError (driverAt 0 (- 20) (- (pi / 2)) False) (Some \<lparr>point_x = 0, point_y = - 10\<rparr>)
     = Some (- (pi / 2))
   \<and> headingError (driverAt 0 (- 20) (3 * pi / 4) False)
       (Some \<lparr>point_x = - 10, point_y = - 20\<rparr>) = Some (3 * pi / 4)
   \<and> headingError (driverAt 0 0 0 False) (Some \<lparr>point_x = 0, point_y = - 10\<rparr>) = Some 0"
proof -
  have h: "\<bar>angle (vehicle (driverAt 0 (- 20) (- (pi / 2)) False))\<bar> \<le> pi"
    "\<bar>angle (vehicle (driverAt 0 (- 20) (3 * pi / 4) False))\<bar> \<le> pi"
    "\<bar>angle (vehicle (driverAt 0 0 0 False))\<bar> \<le> pi"
    by (simp_all add: driverAt_def)
  have b: "atan2 (0::real) (- 10) = pi" "atan2 (- 10 :: real) 0 = - (pi / 2)" "atan2 (0::real) 10 = 0"
    by (simp_all add: atan2_def)
  have down: "pi < pi + pi / 2" "pi + pi / 2 - pi * 2 = - (pi / 2)"
    and up: "\<not> pi < - (pi / 2) - 3 * pi / 4" "- (pi / 2) - 3 * pi / 4 < - pi"
      "- (pi / 2) - 3 * pi / 4 + pi * 2 = 3 * pi / 4"
    using pi_gt_zero by (simp_all add: field_simps)
  have one: "headingError (driverAt 0 (- 20) (- (pi / 2)) False)
               (Some \<lparr>point_x = 0, point_y = - 10\<rparr>) = Some (- (pi / 2))"
    using heading_error_range [OF h(1), of "\<lparr>point_x = 0, point_y = - 10\<rparr>"] down
    by (simp add: driverAt_def b Let_def)
  have two: "headingError (driverAt 0 (- 20) (3 * pi / 4) False)
               (Some \<lparr>point_x = - 10, point_y = - 20\<rparr>) = Some (3 * pi / 4)"
    using heading_error_range [OF h(2), of "\<lparr>point_x = - 10, point_y = - 20\<rparr>"] up
    by (simp add: driverAt_def b Let_def)
  have three: "headingError (driverAt 0 0 0 False) (Some \<lparr>point_x = 0, point_y = - 10\<rparr>) = Some 0"
    using heading_error_range [OF h(3), of "\<lparr>point_x = 0, point_y = - 10\<rparr>"]
    by (simp add: driverAt_def b Let_def)
  from one two three show ?thesis
    by simp
qed

text \<open>
  The claim C5 as stated fails at the lower end: a driver heading \<open>pi\<close> (down) whose target
  lies straight up has bearing \<open>0\<close> and heading error \<open>- pi\<close>, which neither loop
  changes.
\<close>

theorem heading_error_open_counterexample:
  "headingError (driverAt 0 0 pi False) (Some \<lparr>point_x = 0, point_y = - 10\<rparr>) = Some (- pi)
   \<and> \<not> (- pi < the (headingError (driverAt 0 0 pi False) (Some \<lparr>point_x = 0, point_y = - 10\<rparr>)))"
  by (simp add: headingError_def driverAt_def atan2_def normalizeAngle_id)

subsection \<open>The sensors of a constructed driver\<close>

lemma newAICar_sensors:
  "avoidanceSensors (newAICar C x y w h col a trk d) =
     [\<lparr>sensor_angle = - 0.5, sensor_distance = 80\<rparr>,
      \<lparr>sensor_angle = 0, sensor_distance = 100\<rparr>,
      \<lparr>sensor_angle = 0.5, sensor_distance = 80\<rparr>]"
  by (simp add: newAICar_def Let_def)

subsection \<open>Race position\<close>

lemma distanceToCheckpoint_euclidean:
  "targetCheckpoint (vehicle s) = Some i \<Longrightarrow> i < length (checkpoints (track s)) \<Longrightarrow>
   distanceToCheckpoint s = Some (euclidean (vehicle s) (checkpoints (track s) ! i))"
  by (simp add: distanceToCheckpoint_def euclidean_def Let_def power2_eq_square)

text \<open>
  C8: \<open>isAheadOf\<close> returns true exactly when both cursors are defined and either the
  driver's cursor is strictly greater than the other car's, or the cursors are equal and
  the driver is strictly closer (Euclidean distance) to that checkpoint than the other
  car; in every other case, an undefined cursor included, it returns false. Equal
  cursors are looked up in the checkpoints, so they are taken to be in range.
\<close>

theorem isAheadOf_position:
  assumes "\<forall>i. targetCheckpoint (vehicle s) = Some i \<and> targetCheckpoint other = Some i
               \<longrightarrow> i < length (checkpoints (track s))"
  shows "isAheadOf s other =
     Some (\<exists>i j. targetCheckpoint (vehicle s) = Some i \<and> targetCheckpoint other = Some j
             \<and> (j < i
                 \<or> (i = j \<and> euclidean (vehicle s) (checkpoints (track s) ! i)
                              < euclidean other (checkpoints (track s) ! i))))"
proof (cases "targetCheckpoint (vehicle s)")
  case None
  then show ?thesis
    by (simp add: isAheadOf_def)
next
  case mine: (Some i)
  show ?thesis
  proof (cases "targetCheckpoint other")
    case None
    then show ?thesis
      by (simp add: isAheadOf_def mine)
  next
    case theirs: (Some j)
    show ?thesis
    proof (cases "i = j")
      case True
      then have "i < length (checkpoints (track s))"
        using assms mine theirs by simp
      then show ?thesis
        using True mine theirs
        by (simp add: isAheadOf_def distanceToCheckpoint_euclidean Let_def)
           (simp add: euclidean_def power2_eq_square)
    next
      case False
      then show ?thesis
        using mine theirs by (auto simp: isAheadOf_def)
    qed
  qed
qed

theorem isAheadOf_position_witness:
  "isAheadOf (driverAt 0 0 0 False) (playerAt 0 50 (Some 0)) = Some True
   \<and> isAheadOf (driverAt 0 0 0 False) (playerAt 0 0 (Some 0)) = Some False
   \<and> isAheadOf (driverAt 0 0 0 False) (playerAt 0 0 None) = Some False"
proof -
  have r: "\<And>p. \<forall>i. targetCheckpoint (vehicle (driverAt 0 0 0 False)) = Some i
                 \<and> targetCheckpoint p = Some i
               \<longrightarrow> i < length (checkpoints (track (driverAt 0 0 0 False)))"
    by (simp add: driverAt_def squareTrack_def)
  show ?thesis
    using isAheadOf_position [OF r [of "playerAt 0 50 (Some 0)"]]
      isAheadOf_position [OF r [of "playerAt 0 0 (Some 0)"]]
      isAheadOf_position [OF r [of "playerAt 0 0 None"]]
    by (simp add: driverAt_def playerAt_def squareTrack_def euclidean_def)
qed

subsection \<open>What a decision pass changes\<close>

lemma invoke_eq: "invoke C c (calls, s) = (calls @ [c], s\<lparr>vehicle := exec C c (vehicle s)\<rparr>)"
  by (simp add: invoke_def)

text \<open>The steering step makes at most one call, a turn, and changes the vehicle only.\<close>

lemma steer_cases:
  obtains "steer C a h s = ([], s)"
  | d where "steer C a h s = ([TurnRight d], s\<lparr>vehicle := turnRight C d (vehicle s)\<rparr>)"
  | d where "steer C a h s = ([TurnLeft d], s\<lparr>vehicle := turnLeft C d (vehicle s)\<rparr>)"
proof (cases "nan_gt a 0.1")
  case True
  then have "steer C a h s =
      ([TurnRight (reactionTime s * (if h then 1.5 else 1.0))],
       s\<lparr>vehicle := turnRight C (reactionTime s * (if h then 1.5 else 1.0)) (vehicle s)\<rparr>)"
    by (simp add: steer_def invoke_eq Let_def)
  then show thesis
    by (rule that(2))
next
  case False
  show thesis
  proof (cases "nan_lt a (- 0.1)")
    case True
    with False have "steer C a h s =
        ([TurnLeft (reactionTime s * (if h then 1.5 else 1.0))],
         s\<lparr>vehicle := turnLeft C (reactionTime s * (if h then 1.5 else 1.0)) (vehicle s)\<rparr>)"
      by (simp add: steer_def invoke_eq Let_def)
    then show thesis
      by (rule that(3))
  next
    case no_turn: False
    with False have "steer C a h s = ([], s)"
      by (simp add: steer_def Let_def)
    then show thesis
      by (rule that(1))
  qed
qed

lemma steer_frame:
  "\<exists>cs v. steer C a h s = (cs, s\<lparr>vehicle := v\<rparr>)
     \<and> (\<forall>c \<in> set cs. (\<exists>d. c = TurnLeft d) \<or> (\<exists>d. c = TurnRight d))
     \<and> (keeps_cursor C \<longrightarrow> targetCheckpoint v = targetCheckpoint (vehicle s))"
proof (cases rule: steer_cases [of C a h s])
  case 1
  have "s = s\<lparr>vehicle := vehicle s\<rparr>"
    by simp
  with 1 have "steer C a h s = ([], s\<lparr>vehicle := vehicle s\<rparr>)"
    by simp
  then show ?thesis
    by (intro exI [of _ "[]"] exI [of _ "vehicle s"]) simp
next
  case (2 d)
  have "keeps_cursor C \<longrightarrow>
        targetCheckpoint (exec C (TurnRight d) (vehicle s)) = targetCheckpoint (vehicle s)"
    unfolding keeps_cursor_def by blast
  with 2 show ?thesis
    by (intro exI [of _ "[TurnRight d]"] exI [of _ "turnRight C d (vehicle s)"]) simp
next
  case (3 d)
  have "keeps_cursor C \<longrightarrow>
        targetCheckpoint (exec C (TurnLeft d) (vehicle s)) = targetCheckpoint (vehicle s)"
    unfolding keeps_cursor_def by blast
  with 3 show ?thesis
    by (intro exI [of _ "[TurnLeft d]"] exI [of _ "turnLeft C d (vehicle s)"]) simp
qed

lemma decideDrift_frame:
  "\<exists>b. decideDrift C rnd a s = s\<lparr>vehicle := (vehicle s)\<lparr>drifting := b\<rparr>\<rparr>"
  by (auto simp: decideDrift_def)

text \<open>The braking branch: two calls after the steering, and the drift flag cleared.\<close>

lemma recover_eq:
  "recover C (cs, s) =
     (cs @ [Brake (reactionTime s), DeactivateBoost],
      s\<lparr>vehicle := (deactivateBoost C (brake C (reactionTime s) (vehicle s)))\<lparr>drifting := False\<rparr>\<rparr>)"
  by (simp add: recover_def invoke_eq)

text \<open>
  The cruising branch: one throttle call, chosen by the speed, then one boost call.
\<close>

lemma cruise_result:
  assumes "cruise C p rnd a (cs, s) = Some (calls, s')"
  shows "\<exists>boost v.
     calls = cs @ [if getSpeed C (vehicle (decideDrift C rnd a s)) < preferredSpeed s
                 then Accelerate (reactionTime s) else ReleaseAccelerator (reactionTime s),
                 boost]
     \<and> (boost = ActivateBoost \<or> boost = DeactivateBoost)
     \<and> s' = s\<lparr>vehicle := v\<rparr>"
proof -
  obtain b where b: "decideDrift C rnd a s = s\<lparr>vehicle := (vehicle s)\<lparr>drifting := b\<rparr>\<rparr>"
    using decideDrift_frame by blast
  show ?thesis
    using assms
    by (auto simp: cruise_def b invoke_eq Let_def split: if_splits Option.bind_splits)
qed

lemma adaptAggressiveness_vehicle [simp]:
  "vehicle (adaptAggressiveness p s) = vehicle s"
  by (simp add: adaptAggressiveness_def)

lemma makeDecisions_unfold:
  assumes "getTargetRacingPoint s = Some tgt"
  shows "makeDecisions C p rnd s =
     map_option (\<lambda>(calls, s2). (calls, adaptAggressiveness p s2))
       (if \<not> hasCollisionAhead s \<and> nan_lt (map_option abs (headingError s tgt)) 0.8
        then cruise C p rnd (headingError s tgt)
               (steer C (headingError s tgt) (hasCollisionAhead s) s)
        else Some (recover C (steer C (headingError s tgt) (hasCollisionAhead s) s)))"
  using assms
  by (auto simp: makeDecisions_def hasCollisionAhead_def Let_def
      split: Option.bind_splits prod.splits)

lemma makeDecisions_target:
  "makeDecisions C p rnd s = Some r \<Longrightarrow> \<exists>tgt. getTargetRacingPoint s = Some tgt"
  by (auto simp: makeDecisions_def split: Option.bind_splits)

text \<open>The two ways a decision pass can return.\<close>

lemma makeDecisions_cases:
  assumes "makeDecisions C p rnd s = Some (calls, s')"
  obtains (cruising) tgt s2 where
      "getTargetRacingPoint s = Some tgt"
      "\<not> hasCollisionAhead s" "nan_lt (map_option abs (headingError s tgt)) 0.8"
      "cruise C p rnd (headingError s tgt)
         (steer C (headingError s tgt) (hasCollisionAhead s) s) = Some (calls, s2)"
      "s' = adaptAggressiveness p s2"
  | (braking) tgt s2 where
      "getTargetRacingPoint s = Some tgt"
      "hasCollisionAhead s \<or> \<not> nan_lt (map_option abs (headingError s tgt)) 0.8"
      "recover C (steer C (headingError s tgt) (hasCollisionAhead s) s) = (calls, s2)"
      "s' = adaptAggressiveness p s2"
proof -
  obtain tgt where tgt: "getTargetRacingPoint s = Some tgt"
    using assms makeDecisions_target by blast
  show thesis
  proof (cases "\<not> hasCollisionAhead s \<and> nan_lt (map_option abs (headingError s tgt)) 0.8")
    case True
    with assms obtain s2 where
      "cruise C p rnd (headingError s tgt)
         (steer C (headingError s tgt) (hasCollisionAhead s) s) = Some (calls, s2)"
      "s' = adaptAggressiveness p s2"
      by (auto simp: makeDecisions_unfold [OF tgt])
    with True tgt show thesis
      by (intro cruising [of tgt s2]) simp_all
  next
    case False
    with assms obtain s2 where
      "recover C (steer C (headingError s tgt) (hasCollisionAhead s) s) = (calls, s2)"
      "s' = adaptAggressiveness p s2"
      by (auto simp: makeDecisions_unfold [OF tgt])
    with False tgt show thesis
      by (intro braking [of tgt s2]) auto
  qed
qed

text \<open>A decision pass writes the vehicle and the aggressiveness, nothing else.\<close>

lemma makeDecisions_frame:
  assumes "makeDecisions C p rnd s = Some (calls, s')"
  shows "\<exists>s2 v. s2 = s\<lparr>vehicle := v\<rparr> \<and> s' = adaptAggressiveness p s2"
  using assms
proof (cases rule: makeDecisions_cases)
  case (cruising tgt s2)
  obtain cs v where st: "steer C (headingError s tgt) (hasCollisionAhead s) s = (cs, s\<lparr>vehicle := v\<rparr>)"
    using steer_frame by blast
  from cruising(4) [unfolded st] cruise_result obtain v2 where "s2 = s\<lparr>vehicle := v\<rparr>\<lparr>vehicle := v2\<rparr>"
    by blast
  then show ?thesis
    using cruising(5) by auto
next
  case (braking tgt s2)
  obtain cs v where st: "steer C (headingError s tgt) (hasCollisionAhead s) s = (cs, s\<lparr>vehicle := v\<rparr>)"
    using steer_frame by blast
  from braking(3) [unfolded st recover_eq] have "\<exists>v2. s2 = s\<lparr>vehicle := v2\<rparr>"
    by auto
  then show ?thesis
    using braking(4) by auto
qed

lemma makeDecisions_settings:
  "makeDecisions C p rnd s = Some (calls, s') \<Longrightarrow> settings s' = settings s"
  by (drule makeDecisions_frame) (auto simp: settings_def adaptAggressiveness_def)

subsection \<open>Two decision passes of the example driver\<close>

lemmas example_defs = plainCar_def squareTrack_def driverAt_def playerAt_def someRolls_def

lemma normalizeAngle_zero: "normalizeAngle 0 = 0"
  by (simp add: normalizeAngle_id)

lemma normalizeAngle_pi: "normalizeAngle pi = pi"
  by (simp add: normalizeAngle_id)

text \<open>The driver of the examples, its target straight ahead, the opponent beside it.\<close>

lemma example_pass_ahead:
  "\<exists>s'. makeDecisions plainCar (playerAt x y (Some 0)) someRolls (driverAt 0 0 0 False)
          = Some ([Accelerate 0.115, DeactivateBoost], s')
        \<and> car_x (vehicle s') = 0 \<and> car_y (vehicle s') = 0 \<and> \<not> drifting (vehicle s')"
proof -
  have t: "getTargetRacingPoint (driverAt 0 0 0 False) = Some (Some \<lparr>point_x = 0, point_y = - 10\<rparr>)"
    by (simp add: getTargetRacingPoint_def driverAt_def)
  have h: "headingError (driverAt 0 0 0 False) (Some \<lparr>point_x = 0, point_y = - 10\<rparr>) = Some 0"
    by (simp add: headingError_def driverAt_def atan2_def normalizeAngle_zero)
  have c: "\<not> hasCollisionAhead (driverAt 0 0 0 False)"
    by (simp add: hasCollisionAhead_def checkSensors_def driverAt_def squareTrack_def)
  show ?thesis
    apply (simp add: makeDecisions_unfold [OF t] h c steer_def nan_gt_def nan_lt_def cruise_def
        decideDrift_def)
    apply (simp add: example_defs invoke_def isAheadOf_def distanceToCheckpoint_def Let_def
        adaptAggressiveness_def distanceToPlayer_def)
    done
qed

subsection \<open>Aggressiveness\<close>

lemma makeDecisions_aggressiveness:
  assumes "makeDecisions C p rnd s = Some (calls, s')"
  shows "difficulty s' = difficulty s
         \<and> aggressiveness s' =
             (if distanceToPlayer s' p < 100 then min 1 (aggressiveness s + 0.1)
              else difficulty s * 0.8)"
proof -
  from makeDecisions_frame [OF assms] obtain v
    where s': "s' = adaptAggressiveness p (s\<lparr>vehicle := v\<rparr>)"
    by blast
  have "distanceToPlayer s' p = distanceToPlayer (s\<lparr>vehicle := v\<rparr>) p"
    by (simp add: s' distanceToPlayer_def)
  then show ?thesis
    by (simp add: s' adaptAggressiveness_def)
qed

lemma decisionPasses_bounds:
  assumes "decisionPasses C passes s = Some s'"
    and "0 \<le> difficulty s" "difficulty s \<le> 1" "0 \<le> aggressiveness s" "aggressiveness s \<le> 1"
  shows "difficulty s' = difficulty s \<and> 0 \<le> aggressiveness s' \<and> aggressiveness s' \<le> 1"
  using assms
proof (induction passes arbitrary: s)
  case Nil
  then show ?case
    by simp
next
  case (Cons pass passes)
  obtain p rnd where pass: "pass = (p, rnd)"
    by (cases pass)
  from Cons.prems(1) obtain calls s1
    where one: "makeDecisions C p rnd s = Some (calls, s1)"
      and rest: "decisionPasses C passes s1 = Some s'"
    by (auto simp: pass split: Option.bind_splits)
  have d: "difficulty s1 = difficulty s"
    and a: "aggressiveness s1 =
             (if distanceToPlayer s1 p < 100 then min 1 (aggressiveness s + 0.1)
              else difficulty s * 0.8)"
    using makeDecisions_aggressiveness [OF one] by simp_all
  have "0 \<le> aggressiveness s1 \<and> aggressiveness s1 \<le> 1"
    using Cons.prems(2-5) by (simp add: a)
  with Cons.IH [OF rest] d Cons.prems(2,3) show ?case
    by simp
qed

lemma advanceCheckpoint_frame:
  "advanceCheckpoint s = Some s' \<Longrightarrow>
   difficulty s' = difficulty s \<and> aggressiveness s' = aggressiveness s"
  by (auto simp: advanceCheckpoint_def split: Option.bind_splits if_splits)

lemma update_bounds:
  assumes u: "update C dt opp rnd s = Some (calls, s')"
    and "0 \<le> difficulty s" "difficulty s \<le> 1" "0 \<le> aggressiveness s" "aggressiveness s \<le> 1"
  shows "difficulty s' = difficulty s \<and> 0 \<le> aggressiveness s' \<and> aggressiveness s' \<le> 1"
proof -
  let ?s1 = "s\<lparr>lastDecision := lastDecision s + dt\<rparr>"
  from u obtain cs s2 where
    pass: "(case opp of
              Some p \<Rightarrow>
                if lastDecision ?s1 \<ge> reactionTime ?s1
                then makeDecisions C p rnd (?s1\<lparr>lastDecision := 0\<rparr>)
                else Some ([], ?s1)
            | None \<Rightarrow> Some ([], ?s1)) = Some (cs, s2)"
    and adv: "advanceCheckpoint (s2\<lparr>vehicle := car_update C dt (vehicle s2)\<rparr>) = Some s'"
    by (auto simp: update_def invoke_eq Let_def split: Option.bind_splits)
  have "difficulty s2 = difficulty s \<and> 0 \<le> aggressiveness s2 \<and> aggressiveness s2 \<le> 1"
  proof (cases "\<exists>p. opp = Some p \<and> lastDecision ?s1 \<ge> reactionTime ?s1")
    case True
    then obtain p where md: "makeDecisions C p rnd (?s1\<lparr>lastDecision := 0\<rparr>) = Some (cs, s2)"
      using pass by auto
    from makeDecisions_aggressiveness [OF md] assms(2-5) show ?thesis
      by (simp split: if_splits)
  next
    case False
    then have "s2 = ?s1"
      using pass by (cases opp) (auto split: if_splits)
    then show ?thesis
      using assms(2-5) by simp
  qed
  then show ?thesis
    using advanceCheckpoint_frame [OF adv] by simp
qed

lemma updates_bounds:
  assumes "updates C ticks s = Some s'"
    and "0 \<le> difficulty s" "difficulty s \<le> 1" "0 \<le> aggressiveness s" "aggressiveness s \<le> 1"
  shows "difficulty s' = difficulty s \<and> 0 \<le> aggressiveness s' \<and> aggressiveness s' \<le> 1"
  using assms
proof (induction ticks arbitrary: s)
  case Nil
  then show ?case
    by simp
next
  case (Cons tick ticks)
  obtain dt opp rnd where tick: "tick = (dt, opp, rnd)"
    by (cases tick)
  from Cons.prems(1) obtain calls s1
    where one: "update C dt opp rnd s = Some (calls, s1)"
      and rest: "updates C ticks s1 = Some s'"
    by (auto simp: tick split: Option.bind_splits)
  note b = update_bounds [OF one Cons.prems(2-5)]
  with Cons.IH [OF rest] Cons.prems(2,3) show ?case
    by simp
qed

text \<open>
  C2: let the difficulty and the aggressiveness lie in \<open>[0, 1]\<close>. A decision pass leaves
  the difficulty as it is. If the distance to the opponent (measured where the pass
  measures it, after its control calls) is below \<open>100\<close>, the aggressiveness becomes
  \<open>min 1 (aggressiveness + 0.1)\<close>: it does not decrease, it increases strictly while
  it is below \<open>1\<close>, and it does not exceed \<open>1\<close>. Otherwise it becomes \<open>difficulty * 0.8\<close>.
  After any run of decision passes, and after any run of calls of \<open>update\<close>, the
  aggressiveness is in \<open>[0, 1]\<close>.
\<close>

theorem aggressiveness_adaptation:
  assumes "0 \<le> difficulty s" "difficulty s \<le> 1" "0 \<le> aggressiveness s" "aggressiveness s \<le> 1"
  shows "(\<forall>calls s'. makeDecisions C p rnd s = Some (calls, s') \<longrightarrow>
            difficulty s' = difficulty s
            \<and> (if distanceToPlayer s' p < 100
                then aggressiveness s' = min 1 (aggressiveness s + 0.1)
                     \<and> aggressiveness s \<le> aggressiveness s'
                     \<and> (aggressiveness s < 1 \<longrightarrow> aggressiveness s < aggressiveness s')
                else aggressiveness s' = difficulty s * 0.8)
            \<and> 0 \<le> aggressiveness s' \<and> aggressiveness s' \<le> 1)
         \<and> (\<forall>passes s'. decisionPasses C passes s = Some s' \<longrightarrow>
              difficulty s' = difficulty s \<and> 0 \<le> aggressiveness s' \<and> aggressiveness s' \<le> 1)
         \<and> (\<forall>ticks s'. updates C ticks s = Some s' \<longrightarrow>
              difficulty s' = difficulty s \<and> 0 \<le> aggressiveness s' \<and> aggressiveness s' \<le> 1)"
proof (intro conjI allI impI)
  fix calls s'
  assume md: "makeDecisions C p rnd s = Some (calls, s')"
  note m = makeDecisions_aggressiveness [OF md]
  show "difficulty s' = difficulty s"
    using m by simp
  show "if distanceToPlayer s' p < 100
        then aggressiveness s' = min 1 (aggressiveness s + 0.1)
             \<and> aggressiveness s \<le> aggressiveness s'
             \<and> (aggressiveness s < 1 \<longrightarrow> aggressiveness s < aggressiveness s')
        else aggressiveness s' = difficulty s * 0.8"
    using m assms by simp
  show "0 \<le> aggressiveness s'" "aggressiveness s' \<le> 1"
    using m assms by (simp_all split: if_splits)
next
  fix passes s'
  assume "decisionPasses C passes s = Some s'"
  from decisionPasses_bounds [OF this assms]
  show "difficulty s' = difficulty s" "0 \<le> aggressiveness s'" "aggressiveness s' \<le> 1"
    by simp_all
next
  fix ticks s'
  assume "updates C ticks s = Some s'"
  from updates_bounds [OF this assms]
  show "difficulty s' = difficulty s" "0 \<le> aggressiveness s'" "aggressiveness s' \<le> 1"
    by simp_all
qed

theorem aggressiveness_adaptation_witness:
  "aggressiveness (snd (the (makeDecisions plainCar (playerAt 0 0 (Some 0)) someRolls
       (driverAt 0 0 0 False)))) = 0.78
   \<and> aggressiveness (snd (the (makeDecisions plainCar (playerAt 0 500 (Some 0)) someRolls
       (driverAt 0 0 0 False)))) = 0.68"
proof -
  have range: "0 \<le> difficulty (driverAt 0 0 0 False)" "difficulty (driverAt 0 0 0 False) \<le> 1"
    "0 \<le> aggressiveness (driverAt 0 0 0 False)" "aggressiveness (driverAt 0 0 0 False) \<le> 1"
    by (simp_all add: driverAt_def)
  obtain s1 where near: "makeDecisions plainCar (playerAt 0 0 (Some 0)) someRolls
        (driverAt 0 0 0 False) = Some ([Accelerate 0.115, DeactivateBoost], s1)"
    and pos1: "car_x (vehicle s1) = 0" "car_y (vehicle s1) = 0"
    using example_pass_ahead [of 0 0] by blast
  obtain s2 where far: "makeDecisions plainCar (playerAt 0 500 (Some 0)) someRolls
        (driverAt 0 0 0 False) = Some ([Accelerate 0.115, DeactivateBoost], s2)"
    and pos2: "car_x (vehicle s2) = 0" "car_y (vehicle s2) = 0"
    using example_pass_ahead [of 0 500] by blast
  have d1: "distanceToPlayer s1 (playerAt 0 0 (Some 0)) < 100"
    by (simp add: distanceToPlayer_def playerAt_def pos1)
  have d2: "\<not> distanceToPlayer s2 (playerAt 0 500 (Some 0)) < 100"
    by (simp add: distanceToPlayer_def playerAt_def pos2)
  have "aggressiveness s1 = 0.78"
    using aggressiveness_adaptation [OF range, where C = plainCar and rnd = someRolls
        and p = "playerAt 0 0 (Some 0)"] near d1
    by (simp add: driverAt_def)
  moreover have "aggressiveness s2 = 0.68"
    using aggressiveness_adaptation [OF range, where C = plainCar and rnd = someRolls
        and p = "playerAt 0 500 (Some 0)"] far d2
    by (simp add: driverAt_def)
  ultimately show ?thesis
    by (simp add: near far)
qed

subsection \<open>The calls and the vehicle of a decision pass\<close>

lemma run_Nil [simp]: "run C [] v = v"
  by (simp add: run_def)

lemma run_single [simp]: "run C [c] v = exec C c v"
  by (simp add: run_def)

lemma steer_eq:
  "steer C a h s =
     (steeringCall a (reactionTime s * (if h then 1.5 else 1)),
      s\<lparr>vehicle := run C (steeringCall a (reactionTime s * (if h then 1.5 else 1))) (vehicle s)\<rparr>)"
  by (simp add: steer_def steeringCall_def invoke_eq Let_def)

lemma decideDrift_eq:
  "decideDrift C rnd a s =
     s\<lparr>vehicle := (vehicle s)\<lparr>drifting :=
          (nan_gt (map_option abs a) 0.4
           \<and> getSpeed C (vehicle s) > preferredSpeed s * 0.7
           \<and> drift_roll rnd < driftProbability s)\<rparr>\<rparr>"
proof (cases "nan_gt (map_option abs a) 0.4
           \<and> getSpeed C (vehicle s) > preferredSpeed s * 0.7
           \<and> drift_roll rnd < driftProbability s")
  case True
  then show ?thesis
    unfolding decideDrift_def by (simp only: if_True simp_thms)
next
  case False
  then show ?thesis
    unfolding decideDrift_def by (simp only: if_False simp_thms)
qed

text \<open>The braking branch, in full: the pass returns, and this is what it returns.\<close>

lemma braking_pass:
  assumes tgt: "getTargetRacingPoint s = Some tgt"
    and outside: "hasCollisionAhead s \<or> \<not> nan_lt (map_option abs (headingError s tgt)) 0.8"
  shows "makeDecisions C p rnd s =
     Some (steeringCall (headingError s tgt)
             (reactionTime s * (if hasCollisionAhead s then 1.5 else 1))
           @ [Brake (reactionTime s), DeactivateBoost],
           adaptAggressiveness p
             (s\<lparr>vehicle :=
                (deactivateBoost C (brake C (reactionTime s)
                   (run C (steeringCall (headingError s tgt)
                             (reactionTime s * (if hasCollisionAhead s then 1.5 else 1)))
                      (vehicle s))))\<lparr>drifting := False\<rparr>\<rparr>))"
proof -
  have "makeDecisions C p rnd s =
        map_option (\<lambda>(calls, s2). (calls, adaptAggressiveness p s2))
          (Some (recover C (steer C (headingError s tgt) (hasCollisionAhead s) s)))"
    using outside by (subst makeDecisions_unfold [OF tgt]) (auto split: prod.splits)
  then show ?thesis
    by (simp add: steer_eq recover_eq)
qed

text \<open>The cruising branch: what a pass that returns has done.\<close>

lemma cruising_pass:
  assumes tgt: "getTargetRacingPoint s = Some tgt"
    and inside: "\<not> hasCollisionAhead s" "nan_lt (map_option abs (headingError s tgt)) 0.8"
    and md: "makeDecisions C p rnd s = Some (calls, s')"
  defines "a \<equiv> headingError s tgt"
    and "v1 \<equiv> run C (steeringCall (headingError s tgt) (reactionTime s)) (vehicle s)"
  defines "v2 \<equiv> v1\<lparr>drifting :=
                   (nan_gt (map_option abs a) 0.4
                    \<and> getSpeed C v1 > preferredSpeed s * 0.7
                    \<and> drift_roll rnd < driftProbability s)\<rparr>"
  defines "thr \<equiv> (if getSpeed C v2 < preferredSpeed s
                  then Accelerate (reactionTime s) else ReleaseAccelerator (reactionTime s))"
  shows "\<exists>boost. (boost = ActivateBoost \<or> boost = DeactivateBoost)
           \<and> calls = steeringCall a (reactionTime s) @ [thr, boost]
           \<and> s' = adaptAggressiveness p (s\<lparr>vehicle := exec C boost (exec C thr v2)\<rparr>)"
proof -
  let ?turn = "steeringCall a (reactionTime s)"
  have st: "steer C (headingError s tgt) False s = (?turn, s\<lparr>vehicle := v1\<rparr>)"
    by (simp add: steer_eq v1_def a_def)
  have dd: "decideDrift C rnd a (s\<lparr>vehicle := v1\<rparr>) = s\<lparr>vehicle := v2\<rparr>"
    by (simp add: decideDrift_eq v2_def)
  have "makeDecisions C p rnd s =
        map_option (\<lambda>(calls, s2). (calls, adaptAggressiveness p s2))
          (cruise C p rnd a (?turn, s\<lparr>vehicle := v1\<rparr>))"
    using inside by (subst makeDecisions_unfold [OF tgt]) (simp add: st a_def)
  with md obtain s2 where c: "cruise C p rnd a (?turn, s\<lparr>vehicle := v1\<rparr>) = Some (calls, s2)"
    and s': "s' = adaptAggressiveness p s2"
    by auto
  from c have "\<exists>boost. (boost = ActivateBoost \<or> boost = DeactivateBoost)
           \<and> calls = ?turn @ [thr, boost]
           \<and> s2 = s\<lparr>vehicle := exec C boost (exec C thr v2)\<rparr>"
    unfolding cruise_def Let_def prod.case dd
    by (auto simp: invoke_eq thr_def split: if_splits Option.bind_splits)
  with s' show ?thesis
    by blast
qed

lemma speedAtThrottle_eq:
  "speedAtThrottle C rnd s tgt =
     (let a = headingError s tgt;
          v1 = run C (steeringCall a (reactionTime s * (if hasCollisionAhead s then 1.5 else 1)))
                 (vehicle s)
      in getSpeed C (v1\<lparr>drifting :=
            (nan_gt (map_option abs a) 0.4
             \<and> getSpeed C v1 > preferredSpeed s * 0.7
             \<and> drift_roll rnd < driftProbability s)\<rparr>))"
  by (simp add: speedAtThrottle_def steer_eq decideDrift_eq Let_def)

subsection \<open>Throttle\<close>

lemma nan_lt_abs_iff:
  "nan_lt (map_option abs a) c \<longleftrightarrow> (\<exists>v. a = Some v \<and> \<bar>v\<bar> < c)"
  by (cases a) (simp_all add: nan_lt_def)

lemma steeringCall_turns:
  "c \<in> set (steeringCall a dt) \<Longrightarrow> c = TurnLeft dt \<or> c = TurnRight dt"
  by (auto simp: steeringCall_def split: if_splits)

text \<open>
  C3: let a decision pass have the racing target \<open>tgt\<close> and a normalised heading. In the
  statement \<open>turn\<close> is the steering call of the pass, \<open>v1\<close> the vehicle after it,
  \<open>v2\<close> that vehicle with the drift flag the pass assigns, and the current speed is
  the speed of \<open>v2\<close>. The heading error is inside the envelope when it is a number of
  absolute value below \<open>0.8\<close>. If it is, and no collision is ahead, then a pass that
  returns has made, after the steering call, one throttle call and one boost call and no
  other: \<open>accelerate\<close> when the current speed is below the preferred speed,
  \<open>releaseAccelerator\<close> when it is not, never \<open>brake\<close>; and its vehicle is the one
  these methods of \<open>Car\<close> return. Otherwise (a collision ahead, or a heading error
  outside the envelope, for example \<open>pi\<close>) the pass returns; after the steering call it
  has called \<open>brake\<close> and \<open>deactivateBoost\<close> and nothing else; and its vehicle is the
  one \<open>brake\<close> and then \<open>deactivateBoost\<close> return, with the drift flag cleared.
\<close>

theorem throttle_policy:
  assumes "getTargetRacingPoint s = Some tgt"
    and "\<bar>angle (vehicle s)\<bar> \<le> pi"
  shows "let a = headingError s tgt;
             rt = reactionTime s;
             turn = steeringCall a (rt * (if hasCollisionAhead s then 1.5 else 1));
             v1 = run C turn (vehicle s);
             v2 = v1\<lparr>drifting :=
                    (nan_gt (map_option abs a) 0.4
                     \<and> getSpeed C v1 > preferredSpeed s * 0.7
                     \<and> drift_roll rnd < driftProbability s)\<rparr>;
             thr = (if getSpeed C v2 < preferredSpeed s
                    then Accelerate rt else ReleaseAccelerator rt)
         in (nan_lt (map_option abs a) 0.8 \<longleftrightarrow> (\<exists>e. a = Some e \<and> \<bar>e\<bar> < 0.8))
          \<and> speedAtThrottle C rnd s tgt = getSpeed C v2
          \<and> (\<not> hasCollisionAhead s \<and> nan_lt (map_option abs a) 0.8 \<longrightarrow>
               (\<forall>calls s'. makeDecisions C p rnd s = Some (calls, s') \<longrightarrow>
                  (\<exists>boost. (boost = ActivateBoost \<or> boost = DeactivateBoost)
                     \<and> calls = turn @ [thr, boost]
                     \<and> vehicle s' = exec C boost (exec C thr v2))
                  \<and> ((\<exists>d. Accelerate d \<in> set calls)
                       \<longleftrightarrow> speedAtThrottle C rnd s tgt < preferredSpeed s)
                  \<and> ((\<exists>d. ReleaseAccelerator d \<in> set calls)
                       \<longleftrightarrow> \<not> speedAtThrottle C rnd s tgt < preferredSpeed s)
                  \<and> (\<forall>d. Brake d \<notin> set calls)))
          \<and> (hasCollisionAhead s \<or> \<not> nan_lt (map_option abs a) 0.8 \<longrightarrow>
               (\<exists>calls s'. makeDecisions C p rnd s = Some (calls, s')
                  \<and> calls = turn @ [Brake rt, DeactivateBoost]
                  \<and> vehicle s' = (deactivateBoost C (brake C rt v1))\<lparr>drifting := False\<rparr>
                  \<and> Brake rt \<in> set calls \<and> DeactivateBoost \<in> set calls
                  \<and> ActivateBoost \<notin> set calls
                  \<and> (\<forall>d. Accelerate d \<notin> set calls) \<and> (\<forall>d. ReleaseAccelerator d \<notin> set calls)
                  \<and> \<not> drifting (vehicle s')))"
proof -
  define a where "a = headingError s tgt"
  define rt where "rt = reactionTime s"
  define turn where "turn = steeringCall a (rt * (if hasCollisionAhead s then 1.5 else 1))"
  define v1 where "v1 = run C turn (vehicle s)"
  define v2 where "v2 = v1\<lparr>drifting :=
                    (nan_gt (map_option abs a) 0.4
                     \<and> getSpeed C v1 > preferredSpeed s * 0.7
                     \<and> drift_roll rnd < driftProbability s)\<rparr>"
  define thr where "thr = (if getSpeed C v2 < preferredSpeed s
                    then Accelerate rt else ReleaseAccelerator rt)"
  note defs = a_def rt_def turn_def v1_def v2_def thr_def
  have no: "\<And>d. Accelerate d \<notin> set turn" "\<And>d. ReleaseAccelerator d \<notin> set turn"
    "\<And>d. Brake d \<notin> set turn" "ActivateBoost \<notin> set turn" "DeactivateBoost \<notin> set turn"
    using steeringCall_turns [of _ a "rt * (if hasCollisionAhead s then 1.5 else 1)"]
    unfolding turn_def by blast+
  have env: "nan_lt (map_option abs a) 0.8 \<longleftrightarrow> (\<exists>e. a = Some e \<and> \<bar>e\<bar> < 0.8)"
    by (rule nan_lt_abs_iff)
  have speed: "speedAtThrottle C rnd s tgt = getSpeed C v2"
    by (simp add: speedAtThrottle_eq Let_def defs)
  have cruising: "\<not> hasCollisionAhead s \<and> nan_lt (map_option abs a) 0.8 \<longrightarrow>
               (\<forall>calls s'. makeDecisions C p rnd s = Some (calls, s') \<longrightarrow>
                  (\<exists>boost. (boost = ActivateBoost \<or> boost = DeactivateBoost)
                     \<and> calls = turn @ [thr, boost]
                     \<and> vehicle s' = exec C boost (exec C thr v2))
                  \<and> ((\<exists>d. Accelerate d \<in> set calls)
                       \<longleftrightarrow> speedAtThrottle C rnd s tgt < preferredSpeed s)
                  \<and> ((\<exists>d. ReleaseAccelerator d \<in> set calls)
                       \<longleftrightarrow> \<not> speedAtThrottle C rnd s tgt < preferredSpeed s)
                  \<and> (\<forall>d. Brake d \<notin> set calls))"
  proof (intro impI allI)
    fix calls s'
    assume inside: "\<not> hasCollisionAhead s \<and> nan_lt (map_option abs a) 0.8"
      and md: "makeDecisions C p rnd s = Some (calls, s')"
    from inside have free: "\<not> hasCollisionAhead s"
      and ins: "nan_lt (map_option abs (headingError s tgt)) 0.8"
      by (simp_all add: a_def)
    from cruising_pass [OF assms(1) free ins md] free
    obtain boost where boost: "boost = ActivateBoost \<or> boost = DeactivateBoost"
      and calls: "calls = turn @ [thr, boost]"
      and s': "s' = adaptAggressiveness p (s\<lparr>vehicle := exec C boost (exec C thr v2)\<rparr>)"
      by (auto simp: defs)
    have veh: "vehicle s' = exec C boost (exec C thr v2)"
      by (simp add: s')
    have acc: "(\<exists>d. Accelerate d \<in> set calls) \<longleftrightarrow> speedAtThrottle C rnd s tgt < preferredSpeed s"
      using boost no(1) by (auto simp: calls thr_def speed)
    have rel: "(\<exists>d. ReleaseAccelerator d \<in> set calls)
                 \<longleftrightarrow> \<not> speedAtThrottle C rnd s tgt < preferredSpeed s"
      using boost no(2) by (auto simp: calls thr_def speed)
    have brk: "\<forall>d. Brake d \<notin> set calls"
      using boost no(3) by (auto simp: calls thr_def)
    from boost calls veh acc rel brk
    show "(\<exists>boost. (boost = ActivateBoost \<or> boost = DeactivateBoost)
                     \<and> calls = turn @ [thr, boost]
                     \<and> vehicle s' = exec C boost (exec C thr v2))
                  \<and> ((\<exists>d. Accelerate d \<in> set calls)
                       \<longleftrightarrow> speedAtThrottle C rnd s tgt < preferredSpeed s)
                  \<and> ((\<exists>d. ReleaseAccelerator d \<in> set calls)
                       \<longleftrightarrow> \<not> speedAtThrottle C rnd s tgt < preferredSpeed s)
                  \<and> (\<forall>d. Brake d \<notin> set calls)"
      by blast
  qed
  have braking: "hasCollisionAhead s \<or> \<not> nan_lt (map_option abs a) 0.8 \<longrightarrow>
               (\<exists>calls s'. makeDecisions C p rnd s = Some (calls, s')
                  \<and> calls = turn @ [Brake rt, DeactivateBoost]
                  \<and> vehicle s' = (deactivateBoost C (brake C rt v1))\<lparr>drifting := False\<rparr>
                  \<and> Brake rt \<in> set calls \<and> DeactivateBoost \<in> set calls
                  \<and> ActivateBoost \<notin> set calls
                  \<and> (\<forall>d. Accelerate d \<notin> set calls) \<and> (\<forall>d. ReleaseAccelerator d \<notin> set calls)
                  \<and> \<not> drifting (vehicle s'))"
  proof
    assume "hasCollisionAhead s \<or> \<not> nan_lt (map_option abs a) 0.8"
    then have out: "hasCollisionAhead s \<or> \<not> nan_lt (map_option abs (headingError s tgt)) 0.8"
      by (simp add: a_def)
    let ?s' = "adaptAggressiveness p
                 (s\<lparr>vehicle := (deactivateBoost C (brake C rt v1))\<lparr>drifting := False\<rparr>\<rparr>)"
    have md: "makeDecisions C p rnd s = Some (turn @ [Brake rt, DeactivateBoost], ?s')"
      using braking_pass [OF assms(1) out, where C = C and p = p and rnd = rnd]
      by (simp add: defs)
    have veh: "vehicle ?s' = (deactivateBoost C (brake C rt v1))\<lparr>drifting := False\<rparr>"
      by simp
    show "\<exists>calls s'. makeDecisions C p rnd s = Some (calls, s')
                  \<and> calls = turn @ [Brake rt, DeactivateBoost]
                  \<and> vehicle s' = (deactivateBoost C (brake C rt v1))\<lparr>drifting := False\<rparr>
                  \<and> Brake rt \<in> set calls \<and> DeactivateBoost \<in> set calls
                  \<and> ActivateBoost \<notin> set calls
                  \<and> (\<forall>d. Accelerate d \<notin> set calls) \<and> (\<forall>d. ReleaseAccelerator d \<notin> set calls)
                  \<and> \<not> drifting (vehicle s')"
      using md veh no(1,2,4)
      by (intro exI [of _ "turn @ [Brake rt, DeactivateBoost]"] exI [of _ ?s']) simp
  qed
  from env speed cruising braking show ?thesis
    unfolding Let_def defs by blast
qed

theorem throttle_policy_witness:
  "(\<exists>s'. makeDecisions plainCar (playerAt 0 0 (Some 0)) someRolls
            (withSpeed 100 True (driverAt 0 (- 10) 0 False))
           = Some ([TurnRight 0.115, Brake 0.115, DeactivateBoost], s')
         \<and> hidden (vehicle s') = (65.5, False) \<and> angle (vehicle s') = 0.345
         \<and> \<not> drifting (vehicle s'))
   \<and> (\<exists>s'. makeDecisions plainCar (playerAt 0 0 (Some 0)) someRolls (driverAt 0 0 0 False)
           = Some ([Accelerate 0.115, DeactivateBoost], s')
         \<and> hidden (vehicle s') = (23, False))"
proof -
  let ?p = "playerAt 0 0 (Some 0)"
  let ?tgt = "Some \<lparr>point_x = 0, point_y = - 10\<rparr>"
  let ?on = "withSpeed 100 True (driverAt 0 (- 10) 0 False)"
  have big: "\<not> pi < 4 / 5" "\<not> pi * 5 < 4" "1 / 10 < pi" "1 < pi * 10"
    using pi_ge_two by simp_all
  have t: "getTargetRacingPoint ?on = Some ?tgt"
    by (simp add: getTargetRacingPoint_def withSpeed_def driverAt_def)
  have n: "\<bar>angle (vehicle ?on)\<bar> \<le> pi"
    by (simp add: withSpeed_def driverAt_def)
  have h: "headingError ?on ?tgt = Some pi"
    by (simp add: headingError_def withSpeed_def driverAt_def atan2_def normalizeAngle_pi)
  have c: "\<not> hasCollisionAhead ?on"
    by (simp add: hasCollisionAhead_def checkSensors_def withSpeed_def driverAt_def
        squareTrack_def)
  have turn: "steeringCall (Some pi) (reactionTime ?on) = [TurnRight 0.115]"
    using big by (simp add: steeringCall_def nan_gt_def withSpeed_def driverAt_def)
  from throttle_policy [OF t n, where C = plainCar and rnd = someRolls and p = ?p]
  obtain s1 where
    md1: "makeDecisions plainCar ?p someRolls ?on
            = Some ([TurnRight 0.115] @ [Brake (reactionTime ?on), DeactivateBoost], s1)"
    and v1: "vehicle s1 =
       (deactivateBoost plainCar (brake plainCar (reactionTime ?on)
          (run plainCar [TurnRight 0.115] (vehicle ?on))))\<lparr>drifting := False\<rparr>"
    unfolding Let_def h by (auto simp: c nan_lt_def big turn)
  have first: "\<exists>s'. makeDecisions plainCar ?p someRolls ?on
           = Some ([TurnRight 0.115, Brake 0.115, DeactivateBoost], s')
         \<and> hidden (vehicle s') = (65.5, False) \<and> angle (vehicle s') = 0.345
         \<and> \<not> drifting (vehicle s')"
    using md1 by (intro exI [of _ s1]) (simp add: v1 withSpeed_def driverAt_def plainCar_def)
  let ?d = "driverAt 0 0 0 False"
  have t0: "getTargetRacingPoint ?d = Some ?tgt"
    by (simp add: getTargetRacingPoint_def driverAt_def)
  have n0: "\<bar>angle (vehicle ?d)\<bar> \<le> pi"
    by (simp add: driverAt_def)
  have h0: "headingError ?d ?tgt = Some 0"
    by (simp add: headingError_def driverAt_def atan2_def normalizeAngle_zero)
  have c0: "\<not> hasCollisionAhead ?d"
    by (simp add: hasCollisionAhead_def checkSensors_def driverAt_def squareTrack_def)
  obtain s0 where md0: "makeDecisions plainCar ?p someRolls ?d
          = Some ([Accelerate 0.115, DeactivateBoost], s0)"
    using example_pass_ahead [of 0 0] by blast
  from throttle_policy [OF t0 n0, where C = plainCar and rnd = someRolls and p = ?p] md0
  have "\<exists>boost. (boost = ActivateBoost \<or> boost = DeactivateBoost)
          \<and> [Accelerate 0.115, DeactivateBoost] =
              steeringCall (Some 0) (reactionTime ?d)
              @ [if getSpeed plainCar (run plainCar (steeringCall (Some 0) (reactionTime ?d))
                                         (vehicle ?d)\<lparr>drifting := False\<rparr>)
                    < preferredSpeed ?d
                 then Accelerate (reactionTime ?d) else ReleaseAccelerator (reactionTime ?d),
                 boost]
          \<and> vehicle s0 =
              exec plainCar boost
                (exec plainCar
                   (if getSpeed plainCar (run plainCar (steeringCall (Some 0) (reactionTime ?d))
                                         (vehicle ?d)\<lparr>drifting := False\<rparr>)
                       < preferredSpeed ?d
                    then Accelerate (reactionTime ?d) else ReleaseAccelerator (reactionTime ?d))
                   (run plainCar (steeringCall (Some 0) (reactionTime ?d))
                      (vehicle ?d)\<lparr>drifting := False\<rparr>))"
    unfolding Let_def h0 by (simp add: c0 nan_lt_def nan_gt_def)
  then have "hidden (vehicle s0) = (23, False)"
    by (auto simp: steeringCall_def nan_gt_def nan_lt_def driverAt_def plainCar_def)
  with md0 have "\<exists>s'. makeDecisions plainCar ?p someRolls ?d
           = Some ([Accelerate 0.115, DeactivateBoost], s') \<and> hidden (vehicle s') = (23, False)"
    by blast
  with first show ?thesis
    by blast
qed

subsection \<open>Sensors and the decision pass\<close>

text \<open>
  C7: with the three sensors the constructor installs (offsets \<open>- 0.5\<close>, \<open>0\<close>, \<open>0.5\<close>,
  ranges \<open>80\<close>, \<open>100\<close>, \<open>80\<close>), \<open>checkSensors\<close> returns exactly three readings, in that
  order; a reading is \<open>1.0\<close> when the projected endpoint of its ray is in bounds and
  \<open>0.5\<close> when it is out of bounds. A decision pass (with a racing target and a
  normalised heading) has its imminent-collision flag set exactly when some reading is
  below \<open>1.0\<close>: with such a reading it steers with factor \<open>1.5\<close> and brakes whatever
  the heading error; without one it steers with factor \<open>1\<close> and brakes only for a
  heading error outside the envelope.
\<close>

theorem sensor_readings:
  assumes "avoidanceSensors s =
     [\<lparr>sensor_angle = - 0.5, sensor_distance = 80\<rparr>,
      \<lparr>sensor_angle = 0, sensor_distance = 100\<rparr>,
      \<lparr>sensor_angle = 0.5, sensor_distance = 80\<rparr>]"
  shows "length (checkSensors s) = 3
    \<and> checkSensors s =
        [if ray_out_of_bounds s (- 0.5) 80 then 0.5 else 1.0,
         if ray_out_of_bounds s 0 100 then 0.5 else 1.0,
         if ray_out_of_bounds s 0.5 80 then 0.5 else 1.0]
    \<and> (hasCollisionAhead s \<longleftrightarrow> (\<exists>r \<in> set (checkSensors s). r < 1.0))
    \<and> ((\<exists>r \<in> set (checkSensors s). r < 1.0) \<longleftrightarrow>
         ray_out_of_bounds s (- 0.5) 80 \<or> ray_out_of_bounds s 0 100 \<or> ray_out_of_bounds s 0.5 80)
    \<and> (\<forall>tgt. getTargetRacingPoint s = Some tgt \<and> \<bar>angle (vehicle s)\<bar> \<le> pi \<longrightarrow>
         (let a = headingError s tgt;
              rt = reactionTime s;
              flag = (\<exists>r \<in> set (checkSensors s). r < 1.0);
              turn = steeringCall a (rt * (if flag then 1.5 else 1));
              v1 = run C turn (vehicle s);
              v2 = v1\<lparr>drifting :=
                     (nan_gt (map_option abs a) 0.4
                      \<and> getSpeed C v1 > preferredSpeed s * 0.7
                      \<and> drift_roll rnd < driftProbability s)\<rparr>;
              thr = (if getSpeed C v2 < preferredSpeed s
                     then Accelerate rt else ReleaseAccelerator rt)
          in if flag \<or> \<not> nan_lt (map_option abs a) 0.8
             then \<exists>s'. makeDecisions C p rnd s = Some (turn @ [Brake rt, DeactivateBoost], s')
                        \<and> vehicle s' = (deactivateBoost C (brake C rt v1))\<lparr>drifting := False\<rparr>
             else \<forall>calls s'. makeDecisions C p rnd s = Some (calls, s') \<longrightarrow>
                    (\<exists>boost. (boost = ActivateBoost \<or> boost = DeactivateBoost)
                       \<and> calls = turn @ [thr, boost]
                       \<and> vehicle s' = exec C boost (exec C thr v2))))"
proof -
  have readings: "checkSensors s =
        [if ray_out_of_bounds s (- 0.5) 80 then 0.5 else 1.0,
         if ray_out_of_bounds s 0 100 then 0.5 else 1.0,
         if ray_out_of_bounds s 0.5 80 then 0.5 else 1.0]"
    using assms by (simp add: checkSensors_def ray_out_of_bounds_def Let_def)
  have flag: "hasCollisionAhead s \<longleftrightarrow> (\<exists>r \<in> set (checkSensors s). r < 1.0)"
    by (simp add: hasCollisionAhead_def list_ex_iff)
  have rays: "(\<exists>r \<in> set (checkSensors s). r < 1.0) \<longleftrightarrow>
         ray_out_of_bounds s (- 0.5) 80 \<or> ray_out_of_bounds s 0 100 \<or> ray_out_of_bounds s 0.5 80"
    by (simp add: readings)
  have pass: "let a = headingError s tgt;
              rt = reactionTime s;
              flag = (\<exists>r \<in> set (checkSensors s). r < 1.0);
              turn = steeringCall a (rt * (if flag then 1.5 else 1));
              v1 = run C turn (vehicle s);
              v2 = v1\<lparr>drifting :=
                     (nan_gt (map_option abs a) 0.4
                      \<and> getSpeed C v1 > preferredSpeed s * 0.7
                      \<and> drift_roll rnd < driftProbability s)\<rparr>;
              thr = (if getSpeed C v2 < preferredSpeed s
                     then Accelerate rt else ReleaseAccelerator rt)
          in if flag \<or> \<not> nan_lt (map_option abs a) 0.8
             then \<exists>s'. makeDecisions C p rnd s = Some (turn @ [Brake rt, DeactivateBoost], s')
                        \<and> vehicle s' = (deactivateBoost C (brake C rt v1))\<lparr>drifting := False\<rparr>
             else \<forall>calls s'. makeDecisions C p rnd s = Some (calls, s') \<longrightarrow>
                    (\<exists>boost. (boost = ActivateBoost \<or> boost = DeactivateBoost)
                       \<and> calls = turn @ [thr, boost]
                       \<and> vehicle s' = exec C boost (exec C thr v2))"
    if tgt: "getTargetRacingPoint s = Some tgt" for tgt
  proof -
    define a where "a = headingError s tgt"
    define rt where "rt = reactionTime s"
    define turn where "turn = steeringCall a (rt * (if hasCollisionAhead s then 1.5 else 1))"
    define v1 where "v1 = run C turn (vehicle s)"
    define v2 where "v2 = v1\<lparr>drifting :=
                      (nan_gt (map_option abs a) 0.4
                       \<and> getSpeed C v1 > preferredSpeed s * 0.7
                       \<and> drift_roll rnd < driftProbability s)\<rparr>"
    define thr where "thr = (if getSpeed C v2 < preferredSpeed s
                      then Accelerate rt else ReleaseAccelerator rt)"
    note defs = a_def rt_def turn_def v1_def v2_def thr_def
    have "if hasCollisionAhead s \<or> \<not> nan_lt (map_option abs a) 0.8
          then \<exists>s'. makeDecisions C p rnd s = Some (turn @ [Brake rt, DeactivateBoost], s')
                     \<and> vehicle s' = (deactivateBoost C (brake C rt v1))\<lparr>drifting := False\<rparr>
          else \<forall>calls s'. makeDecisions C p rnd s = Some (calls, s') \<longrightarrow>
                 (\<exists>boost. (boost = ActivateBoost \<or> boost = DeactivateBoost)
                    \<and> calls = turn @ [thr, boost]
                    \<and> vehicle s' = exec C boost (exec C thr v2))"
    proof (cases "hasCollisionAhead s \<or> \<not> nan_lt (map_option abs a) 0.8")
      case True
      then have out: "hasCollisionAhead s
                      \<or> \<not> nan_lt (map_option abs (headingError s tgt)) 0.8"
        by (simp add: a_def)
      let ?s' = "adaptAggressiveness p
                   (s\<lparr>vehicle := (deactivateBoost C (brake C rt v1))\<lparr>drifting := False\<rparr>\<rparr>)"
      have "makeDecisions C p rnd s = Some (turn @ [Brake rt, DeactivateBoost], ?s')"
        using braking_pass [OF tgt out, where C = C and p = p and rnd = rnd]
        by (simp add: defs)
      moreover have "vehicle ?s' = (deactivateBoost C (brake C rt v1))\<lparr>drifting := False\<rparr>"
        by simp
      ultimately show ?thesis
        using True by auto
    next
      case False
      then have free: "\<not> hasCollisionAhead s"
        and inside: "nan_lt (map_option abs (headingError s tgt)) 0.8"
        by (simp_all add: a_def)
      have "\<exists>boost. (boost = ActivateBoost \<or> boost = DeactivateBoost)
              \<and> calls = turn @ [thr, boost]
              \<and> vehicle s' = exec C boost (exec C thr v2)"
        if md: "makeDecisions C p rnd s = Some (calls, s')" for calls s'
      proof -
        from cruising_pass [OF tgt free inside md] free
        obtain boost where "boost = ActivateBoost \<or> boost = DeactivateBoost"
          and "calls = turn @ [thr, boost]"
          and "s' = adaptAggressiveness p (s\<lparr>vehicle := exec C boost (exec C thr v2)\<rparr>)"
          by (auto simp: defs)
        then show ?thesis
          by (intro exI [of _ boost]) simp
      qed
      with False show ?thesis
        by simp
    qed
    then show ?thesis
      unfolding Let_def flag [symmetric] defs .
  qed
  from readings flag rays pass show ?thesis
    by simp
qed

theorem sensor_readings_witness:
  "checkSensors (driverAt 0 0 0 True) = [0.5, 0.5, 0.5]
   \<and> checkSensors (driverAt 0 0 0 False) = [1, 1, 1]
   \<and> (\<exists>s'. makeDecisions plainCar (playerAt 0 0 (Some 0)) someRolls
              (withSpeed 100 True (driverAt 0 0 0 True))
            = Some ([Brake 0.115, DeactivateBoost], s')
          \<and> hidden (vehicle s') = (65.5, False))
   \<and> (\<exists>s'. makeDecisions plainCar (playerAt 0 0 (Some 0)) someRolls
              (withSpeed 100 True (driverAt 0 (- 20) 0 True))
            = Some ([TurnRight 0.1725, Brake 0.115, DeactivateBoost], s')
          \<and> hidden (vehicle s') = (65.5, False) \<and> angle (vehicle s') = 0.5175)
   \<and> (\<exists>s'. makeDecisions plainCar (playerAt 0 0 (Some 0)) someRolls (driverAt 0 0 0 False)
            = Some ([Accelerate 0.115, DeactivateBoost], s')
          \<and> hidden (vehicle s') = (23, False))"
proof -
  let ?p = "playerAt 0 0 (Some 0)"
  let ?tgt = "Some \<lparr>point_x = 0, point_y = - 10\<rparr>"
  let ?sensors = "[\<lparr>sensor_angle = - 0.5, sensor_distance = 80\<rparr>,
      \<lparr>sensor_angle = 0, sensor_distance = 100\<rparr>,
      \<lparr>sensor_angle = 0.5, sensor_distance = 80\<rparr>]"
  have big: "\<not> pi < 4 / 5" "\<not> pi * 5 < 4" "1 / 10 < pi" "1 < pi * 10"
    using pi_ge_two by simp_all
  have sens: "\<And>y oob. avoidanceSensors (driverAt 0 y 0 oob) = ?sensors"
    "\<And>y oob v b. avoidanceSensors (withSpeed v b (driverAt 0 y 0 oob)) = ?sensors"
    by (simp_all add: withSpeed_def driverAt_def)
  have oob: "\<And>y a d. ray_out_of_bounds (driverAt 0 y 0 True) a d"
    "\<And>y a d v b. ray_out_of_bounds (withSpeed v b (driverAt 0 y 0 True)) a d"
    "\<And>y a d. \<not> ray_out_of_bounds (driverAt 0 y 0 False) a d"
    by (simp_all add: ray_out_of_bounds_def withSpeed_def driverAt_def squareTrack_def)
  have tgt: "\<And>y oob. getTargetRacingPoint (driverAt 0 y 0 oob) = Some ?tgt"
    "\<And>y oob v b. getTargetRacingPoint (withSpeed v b (driverAt 0 y 0 oob)) = Some ?tgt"
    by (simp_all add: getTargetRacingPoint_def withSpeed_def driverAt_def)
  have norm: "\<And>y oob. \<bar>angle (vehicle (driverAt 0 y 0 oob))\<bar> \<le> pi"
    "\<And>y oob v b. \<bar>angle (vehicle (withSpeed v b (driverAt 0 y 0 oob)))\<bar> \<le> pi"
    by (simp_all add: withSpeed_def driverAt_def)
  have err: "\<And>oob v b. headingError (withSpeed v b (driverAt 0 0 0 oob)) ?tgt = Some 0"
    "\<And>oob v b. headingError (withSpeed v b (driverAt 0 (- 20) 0 oob)) ?tgt = Some pi"
    "\<And>oob. headingError (driverAt 0 0 0 oob) ?tgt = Some 0"
    by (simp_all add: headingError_def withSpeed_def driverAt_def atan2_def
        normalizeAngle_zero normalizeAngle_pi)
  have r1: "checkSensors (driverAt 0 0 0 True) = [0.5, 0.5, 0.5]"
    using sensor_readings [OF sens(1) [of 0 True], THEN conjunct2, THEN conjunct1]
    by (simp add: oob)
  have r2: "checkSensors (driverAt 0 0 0 False) = [1, 1, 1]"
    using sensor_readings [OF sens(1) [of 0 False], THEN conjunct2, THEN conjunct1]
    by (simp add: oob)
  have cs: "\<And>y v b. checkSensors (withSpeed v b (driverAt 0 y 0 True)) = [0.5, 0.5, 0.5]"
    "\<And>y. checkSensors (driverAt 0 y 0 False) = [1, 1, 1]"
    by (simp_all add: checkSensors_def withSpeed_def driverAt_def squareTrack_def)
  have flag: "\<And>y v b. \<exists>r \<in> set (checkSensors (withSpeed v b (driverAt 0 y 0 True))). r < 1.0"
    by (rule bexI [of _ "0.5"]) (simp_all add: cs)
  have free: "\<And>y. \<not> (\<exists>r \<in> set (checkSensors (driverAt 0 y 0 False)). r < 1.0)"
    by (simp add: cs)
  let ?a = "withSpeed 100 True (driverAt 0 0 0 True)"
  note pass_a = sensor_readings [OF sens(2) [of 100 True 0 True], where C = plainCar
      and rnd = someRolls and p = ?p, THEN conjunct2, THEN conjunct2, THEN conjunct2,
      THEN conjunct2, rule_format, OF conjI, OF tgt(2) norm(2), unfolded Let_def err]
  have "\<exists>s'. makeDecisions plainCar ?p someRolls ?a
               = Some (steeringCall (Some 0) (reactionTime ?a * 1.5)
                       @ [Brake (reactionTime ?a), DeactivateBoost], s')
             \<and> vehicle s' =
                 (deactivateBoost plainCar (brake plainCar (reactionTime ?a)
                    (run plainCar (steeringCall (Some 0) (reactionTime ?a * 1.5)) (vehicle ?a))))
                 \<lparr>drifting := False\<rparr>"
    using pass_a flag [of 100 True 0] by simp
  then have p1: "\<exists>s'. makeDecisions plainCar ?p someRolls ?a
            = Some ([Brake 0.115, DeactivateBoost], s') \<and> hidden (vehicle s') = (65.5, False)"
    by (auto simp: steeringCall_def nan_gt_def nan_lt_def withSpeed_def driverAt_def plainCar_def)
  let ?b = "withSpeed 100 True (driverAt 0 (- 20) 0 True)"
  note pass_b = sensor_readings [OF sens(2) [of 100 True "- 20" True], where C = plainCar
      and rnd = someRolls and p = ?p, THEN conjunct2, THEN conjunct2, THEN conjunct2,
      THEN conjunct2, rule_format, OF conjI, OF tgt(2) norm(2), unfolded Let_def err]
  have "\<exists>s'. makeDecisions plainCar ?p someRolls ?b
               = Some (steeringCall (Some pi) (reactionTime ?b * 1.5)
                       @ [Brake (reactionTime ?b), DeactivateBoost], s')
             \<and> vehicle s' =
                 (deactivateBoost plainCar (brake plainCar (reactionTime ?b)
                    (run plainCar (steeringCall (Some pi) (reactionTime ?b * 1.5)) (vehicle ?b))))
                 \<lparr>drifting := False\<rparr>"
    using pass_b flag [of 100 True "- 20"] by simp
  then have p2: "\<exists>s'. makeDecisions plainCar ?p someRolls ?b
            = Some ([TurnRight 0.1725, Brake 0.115, DeactivateBoost], s')
          \<and> hidden (vehicle s') = (65.5, False) \<and> angle (vehicle s') = 0.5175"
    using big
    by (auto simp: steeringCall_def nan_gt_def nan_lt_def withSpeed_def driverAt_def plainCar_def)
  let ?d = "driverAt 0 0 0 False"
  obtain s0 where md0: "makeDecisions plainCar ?p someRolls ?d
          = Some ([Accelerate 0.115, DeactivateBoost], s0)"
    using example_pass_ahead [of 0 0] by blast
  note pass_d = sensor_readings [OF sens(1) [of 0 False], where C = plainCar
      and rnd = someRolls and p = ?p, THEN conjunct2, THEN conjunct2, THEN conjunct2,
      THEN conjunct2, rule_format, OF conjI, OF tgt(1) norm(1), unfolded Let_def err]
  have "\<exists>boost. (boost = ActivateBoost \<or> boost = DeactivateBoost)
          \<and> [Accelerate 0.115, DeactivateBoost] =
              steeringCall (Some 0) (reactionTime ?d)
              @ [if getSpeed plainCar (run plainCar (steeringCall (Some 0) (reactionTime ?d))
                                         (vehicle ?d)\<lparr>drifting := False\<rparr>)
                    < preferredSpeed ?d
                 then Accelerate (reactionTime ?d) else ReleaseAccelerator (reactionTime ?d),
                 boost]
          \<and> vehicle s0 =
              exec plainCar boost
                (exec plainCar
                   (if getSpeed plainCar (run plainCar (steeringCall (Some 0) (reactionTime ?d))
                                         (vehicle ?d)\<lparr>drifting := False\<rparr>)
                       < preferredSpeed ?d
                    then Accelerate (reactionTime ?d) else ReleaseAccelerator (reactionTime ?d))
                   (run plainCar (steeringCall (Some 0) (reactionTime ?d))
                      (vehicle ?d)\<lparr>drifting := False\<rparr>))"
    using pass_d free [of 0] md0 by (simp add: nan_lt_def nan_gt_def)
  then have "hidden (vehicle s0) = (23, False)"
    by (auto simp: steeringCall_def nan_gt_def nan_lt_def driverAt_def plainCar_def)
  with md0 have p3: "\<exists>s'. makeDecisions plainCar ?p someRolls ?d
           = Some ([Accelerate 0.115, DeactivateBoost], s') \<and> hidden (vehicle s') = (23, False)"
    by blast
  from r1 r2 p1 p2 p3 show ?thesis
    by blast
qed

subsection \<open>\<open>update\<close>\<close>

lemma advanceCheckpoint_eq:
  "advanceCheckpoint s =
     (case targetCheckpoint (vehicle s) of
        None \<Rightarrow> Some s
      | Some i \<Rightarrow>
          if i < length (checkpoints (track s)) then
            Some (if euclidean (vehicle s) (checkpoints (track s) ! i) < 50
                  then s\<lparr>vehicle := (vehicle s)\<lparr>targetCheckpoint :=
                         Some ((i + 1) mod length (checkpoints (track s)))\<rparr>\<rparr>
                  else s)
          else None)"
  by (simp add: advanceCheckpoint_def distanceToCheckpoint_def euclidean_def Let_def
      power2_eq_square split: option.splits)

text \<open>\<open>update\<close> when the decision pass does not run.\<close>

lemma update_no_pass:
  assumes "opp = None \<or> lastDecision s + dt < reactionTime s"
  shows "update C dt opp rnd s =
     map_option (Pair [Update dt])
       (advanceCheckpoint
          (s\<lparr>lastDecision := lastDecision s + dt, vehicle := car_update C dt (vehicle s)\<rparr>))"
  using assms
  by (cases opp) (auto simp: update_def invoke_eq Let_def split: Option.bind_splits)

text \<open>
  C10: let a call of \<open>update\<close> run no decision pass, because the opponent is omitted or
  because the timer plus \<open>dt\<close> is still below the reaction time. The call fails only
  when the cursor left by \<open>Car.update\<close> is out of range. When it returns, the one call
  made on the vehicle is \<open>Car.update(dt)\<close>; the timer has grown by exactly \<open>dt\<close>; the
  aggressiveness and the settings are unchanged; the vehicle is the one \<open>Car.update\<close>
  returned, drift flag and hidden state (boost flag) included, but for the cursor; and
  the cursor has advanced by one (wrapping) exactly when the vehicle is now closer than
  \<open>50\<close> to the checkpoint it targets.
\<close>

theorem update_without_decision:
  assumes "opp = None \<or> lastDecision s + dt < reactionTime s"
  shows "(update C dt opp rnd s = None \<longleftrightarrow>
            (\<exists>i. targetCheckpoint (car_update C dt (vehicle s)) = Some i
                 \<and> length (checkpoints (track s)) \<le> i))
    \<and> (\<forall>calls s'. update C dt opp rnd s = Some (calls, s') \<longrightarrow>
          calls = [Update dt]
          \<and> lastDecision s' = lastDecision s + dt
          \<and> aggressiveness s' = aggressiveness s
          \<and> settings s' = settings s
          \<and> vehicle s' =
              (car_update C dt (vehicle s))\<lparr>targetCheckpoint := targetCheckpoint (vehicle s')\<rparr>
          \<and> drifting (vehicle s') = drifting (car_update C dt (vehicle s))
          \<and> hidden (vehicle s') = hidden (car_update C dt (vehicle s))
          \<and> targetCheckpoint (vehicle s') =
              (case targetCheckpoint (car_update C dt (vehicle s)) of
                 None \<Rightarrow> None
               | Some i \<Rightarrow>
                   Some (if euclidean (car_update C dt (vehicle s)) (checkpoints (track s) ! i) < 50
                         then (i + 1) mod length (checkpoints (track s)) else i)))"
  by (auto simp: update_no_pass [OF assms] advanceCheckpoint_eq settings_def
      split: option.splits if_splits)

theorem update_without_decision_witness:
  "(\<exists>s'. update plainCar 0.016 None someRolls (driverAt 0 0 0 False) = Some ([Update 0.016], s')
        \<and> lastDecision s' = 0.016 \<and> aggressiveness s' = 0.68
        \<and> targetCheckpoint (vehicle s') = Some 1)
   \<and> (\<exists>s'. update plainCar 0.016 (Some (playerAt 0 0 (Some 0))) someRolls (driverAt 0 60 0 False)
          = Some ([Update 0.016], s')
        \<and> lastDecision s' = 0.016 \<and> aggressiveness s' = 0.68
        \<and> targetCheckpoint (vehicle s') = Some 0)"
proof -
  have still: "\<And>dt y. car_update plainCar dt (vehicle (driverAt 0 y 0 False))
               = vehicle (driverAt 0 y 0 False)"
    by (simp add: plainCar_def driverAt_def)
  have a: "None = None \<or> lastDecision (driverAt 0 0 0 False) + 0.016
             < reactionTime (driverAt 0 0 0 False)"
    by simp
  have b: "Some (playerAt 0 0 (Some 0)) = None \<or> lastDecision (driverAt 0 60 0 False) + 0.016
             < reactionTime (driverAt 0 60 0 False)"
    by (simp add: driverAt_def)
  note A = update_without_decision [OF a, where C = plainCar and rnd = someRolls]
  note B = update_without_decision [OF b, where C = plainCar and rnd = someRolls]
  have c0: "targetCheckpoint (vehicle (driverAt 0 0 0 False)) = Some 0"
    "targetCheckpoint (vehicle (driverAt 0 60 0 False)) = Some 0"
    "length (checkpoints (track (driverAt 0 0 0 False))) = 4"
    "length (checkpoints (track (driverAt 0 60 0 False))) = 4"
    by (simp_all add: driverAt_def squareTrack_def)
  have e0: "euclidean (vehicle (driverAt 0 0 0 False))
              (checkpoints (track (driverAt 0 0 0 False)) ! 0) = 0"
    "euclidean (vehicle (driverAt 0 60 0 False))
              (checkpoints (track (driverAt 0 60 0 False)) ! 0) = 60"
    by (simp_all add: euclidean_def driverAt_def squareTrack_def)
  from A obtain calls1 s1 where
    u1: "update plainCar 0.016 None someRolls (driverAt 0 0 0 False) = Some (calls1, s1)"
    by (cases "update plainCar 0.016 None someRolls (driverAt 0 0 0 False)")
       (auto simp: still c0)
  from B obtain calls2 s2 where
    u2: "update plainCar 0.016 (Some (playerAt 0 0 (Some 0))) someRolls (driverAt 0 60 0 False)
          = Some (calls2, s2)"
    by (cases "update plainCar 0.016 (Some (playerAt 0 0 (Some 0))) someRolls
          (driverAt 0 60 0 False)")
       (auto simp: still c0)
  have "calls1 = [Update 0.016] \<and> lastDecision s1 = 0.016 \<and> aggressiveness s1 = 0.68
        \<and> targetCheckpoint (vehicle s1) = Some 1"
    using A u1 by (simp add: still c0 e0) (simp add: driverAt_def)
  moreover have "calls2 = [Update 0.016] \<and> lastDecision s2 = 0.016 \<and> aggressiveness s2 = 0.68
        \<and> targetCheckpoint (vehicle s2) = Some 0"
    using B u2 by (simp add: still c0 e0) (simp add: driverAt_def)
  ultimately show ?thesis
    using u1 u2 by simp
qed

subsection \<open>The checkpoint cursor\<close>

lemma keeps_cursor_exec:
  "keeps_cursor C \<Longrightarrow> targetCheckpoint (exec C c v) = targetCheckpoint v"
  by (simp add: keeps_cursor_def)

lemma distanceToCheckpoint_some:
  assumes "\<forall>i. targetCheckpoint (vehicle s) = Some i \<longrightarrow> i < length (checkpoints (track s))"
  shows "\<exists>d. distanceToCheckpoint s = Some d"
  using assms by (cases "targetCheckpoint (vehicle s)") (simp_all add: distanceToCheckpoint_def Let_def)

lemma isAheadOf_some:
  assumes "\<forall>i. targetCheckpoint (vehicle s) = Some i \<longrightarrow> i < length (checkpoints (track s))"
  shows "\<exists>b. isAheadOf s p = Some b"
proof -
  obtain d where "distanceToCheckpoint s = Some d"
    using distanceToCheckpoint_some [OF assms] by blast
  then show ?thesis
    using assms
    by (cases "targetCheckpoint (vehicle s)"; cases "targetCheckpoint p")
       (auto simp: isAheadOf_def Let_def)
qed

text \<open>
  The state in which the cruising branch reads the race position: the cursor and the
  track are those of the start when no method of \<open>Car\<close> writes the cursor.
\<close>

lemma cruise_some:
  assumes keeps: "keeps_cursor C"
    and range: "\<forall>i. targetCheckpoint (vehicle s) = Some i \<longrightarrow> i < length (checkpoints (track s))"
  shows "\<exists>calls s'. cruise C p rnd a (cs, s) = Some (calls, s')
           \<and> targetCheckpoint (vehicle s') = targetCheckpoint (vehicle s)"
proof -
  obtain b where b: "decideDrift C rnd a s = s\<lparr>vehicle := (vehicle s)\<lparr>drifting := b\<rparr>\<rparr>"
    using decideDrift_frame by blast
  let ?s1 = "s\<lparr>vehicle := (vehicle s)\<lparr>drifting := b\<rparr>\<rparr>"
  let ?thr = "if getSpeed C (vehicle ?s1) < preferredSpeed ?s1
              then Accelerate (reactionTime ?s1) else ReleaseAccelerator (reactionTime ?s1)"
  let ?s2 = "?s1\<lparr>vehicle := exec C ?thr (vehicle ?s1)\<rparr>"
  have st2: "(if getSpeed C (vehicle ?s1) < preferredSpeed ?s1
              then invoke C (Accelerate (reactionTime ?s1)) (cs, ?s1)
              else invoke C (ReleaseAccelerator (reactionTime ?s1)) (cs, ?s1))
             = (cs @ [?thr], ?s2)"
    by (simp add: invoke_eq)
  have cur2: "targetCheckpoint (vehicle ?s2) = targetCheckpoint (vehicle s)"
    using keeps by (simp add: keeps_cursor_exec del: exec.simps)
  have trk2: "track ?s2 = track s"
    by simp
  have range2: "\<forall>i. targetCheckpoint (vehicle ?s2) = Some i
                  \<longrightarrow> i < length (checkpoints (track ?s2))"
    using range unfolding cur2 trk2 .
  obtain ahead where ahead: "isAheadOf ?s2 p = Some ahead"
    using isAheadOf_some [OF range2] by blast
  obtain d where d: "distanceToCheckpoint ?s2 = Some d"
    using distanceToCheckpoint_some [OF range2] by blast
  let ?boost = "if (\<not> ahead \<or> (d > 150 \<and> stretch_roll rnd < difficulty ?s2 * 0.2))
                   \<and> boost_roll rnd < aggressiveness ?s2 * 0.2
                then ActivateBoost else DeactivateBoost"
  have "cruise C p rnd a (cs, s) = Some (invoke C ?boost (cs @ [?thr], ?s2))"
    unfolding cruise_def b Let_def prod.case st2 snd_conv ahead d
    by (cases ahead) simp_all
  moreover have "targetCheckpoint (vehicle (snd (invoke C ?boost (cs @ [?thr], ?s2))))
                 = targetCheckpoint (vehicle s)"
    using keeps cur2 by (simp add: invoke_eq keeps_cursor_exec del: exec.simps)
  ultimately show ?thesis
    by (metis prod.collapse)
qed

lemma getTargetRacingPoint_some:
  "racingLine s \<noteq> [] \<Longrightarrow> \<exists>tgt. getTargetRacingPoint s = Some tgt"
  by (simp add: getTargetRacingPoint_def Let_def)

text \<open>
  A decision pass returns when the racing line is not empty and the cursor is undefined
  or in range, and it leaves the cursor where it was.
\<close>

lemma makeDecisions_some:
  assumes keeps: "keeps_cursor C"
    and line: "racingLine s \<noteq> []"
    and range: "\<forall>i. targetCheckpoint (vehicle s) = Some i \<longrightarrow> i < length (checkpoints (track s))"
  shows "\<exists>calls s'. makeDecisions C p rnd s = Some (calls, s')
           \<and> targetCheckpoint (vehicle s') = targetCheckpoint (vehicle s)"
proof -
  obtain tgt where tgt: "getTargetRacingPoint s = Some tgt"
    using getTargetRacingPoint_some [OF line] by blast
  let ?a = "headingError s tgt" and ?h = "hasCollisionAhead s"
  obtain cs v where st: "steer C ?a ?h s = (cs, s\<lparr>vehicle := v\<rparr>)"
    and cur: "targetCheckpoint v = targetCheckpoint (vehicle s)"
    using steer_frame [of C ?a ?h s] keeps by blast
  show ?thesis
  proof (cases "\<not> ?h \<and> nan_lt (map_option abs ?a) 0.8")
    case True
    have "\<forall>i. targetCheckpoint (vehicle (s\<lparr>vehicle := v\<rparr>)) = Some i
             \<longrightarrow> i < length (checkpoints (track (s\<lparr>vehicle := v\<rparr>)))"
      using range by (simp add: cur)
    from cruise_some [OF keeps this, of p rnd ?a cs] obtain calls s2
      where "cruise C p rnd ?a (cs, s\<lparr>vehicle := v\<rparr>) = Some (calls, s2)"
        and "targetCheckpoint (vehicle s2) = targetCheckpoint (vehicle s)"
      by (auto simp: cur)
    then show ?thesis
      using True st by (simp add: makeDecisions_unfold [OF tgt])
  next
    case False
    then have "makeDecisions C p rnd s =
        Some (cs @ [Brake (reactionTime s), DeactivateBoost],
              adaptAggressiveness p (snd (recover C (cs, s\<lparr>vehicle := v\<rparr>))))"
      by (auto simp: makeDecisions_unfold [OF tgt] st recover_eq)
    moreover have "targetCheckpoint (vehicle (snd (recover C (cs, s\<lparr>vehicle := v\<rparr>))))
                   = targetCheckpoint (vehicle s)"
      using keeps_cursor_exec [OF keeps, of DeactivateBoost]
        keeps_cursor_exec [OF keeps, of "Brake (reactionTime s)"]
      by (simp add: recover_eq cur)
    ultimately show ?thesis
      by simp
  qed
qed

text \<open>One call of \<open>update\<close> from a state whose cursor is in range.\<close>

lemma update_step:
  assumes keeps: "keeps_cursor C"
    and line: "racingLine s \<noteq> []"
    and cursor: "targetCheckpoint (vehicle s) = Some i"
    and range: "i < length (checkpoints (track s))"
  shows "\<exists>calls s'. update C dt opp rnd s = Some (calls, s')
     \<and> settings s' = settings s
     \<and> targetCheckpoint (vehicle s') =
         Some (if euclidean (vehicle s') (checkpoints (track s) ! i) < 50
               then (i + 1) mod length (checkpoints (track s)) else i)"
proof -
  let ?s1 = "s\<lparr>lastDecision := lastDecision s + dt\<rparr>"
  let ?pass = "case opp of
                 Some p \<Rightarrow>
                   if lastDecision ?s1 \<ge> reactionTime ?s1
                   then makeDecisions C p rnd (?s1\<lparr>lastDecision := 0\<rparr>)
                   else Some ([], ?s1)
               | None \<Rightarrow> Some ([], ?s1)"
  have "\<exists>cs s2. ?pass = Some (cs, s2) \<and> settings s2 = settings s
          \<and> targetCheckpoint (vehicle s2) = Some i"
  proof (cases "\<exists>p. opp = Some p \<and> lastDecision ?s1 \<ge> reactionTime ?s1")
    case True
    then obtain p where p: "opp = Some p" and due: "lastDecision ?s1 \<ge> reactionTime ?s1"
      by blast
    let ?s0 = "?s1\<lparr>lastDecision := 0\<rparr>"
    have "racingLine ?s0 \<noteq> []"
      and "\<forall>j. targetCheckpoint (vehicle ?s0) = Some j \<longrightarrow> j < length (checkpoints (track ?s0))"
      using line cursor range by simp_all
    from makeDecisions_some [OF keeps this, of p rnd] obtain cs s2
      where md: "makeDecisions C p rnd ?s0 = Some (cs, s2)"
        and "targetCheckpoint (vehicle s2) = targetCheckpoint (vehicle ?s0)"
      by blast
    moreover have "settings s2 = settings s"
      using makeDecisions_settings [OF md] by (simp add: settings_def)
    ultimately show ?thesis
      using p due cursor by simp
  next
    case False
    then have "?pass = Some ([], ?s1)"
      by (cases opp) auto
    then show ?thesis
      using cursor by (simp add: settings_def)
  qed
  then obtain cs s2 where pass: "?pass = Some (cs, s2)"
    and set2: "settings s2 = settings s"
    and cur2: "targetCheckpoint (vehicle s2) = Some i"
    by blast
  let ?s3 = "s2\<lparr>vehicle := car_update C dt (vehicle s2)\<rparr>"
  have trk: "track s2 = track s"
    using set2 by (simp add: settings_def)
  have cur3: "targetCheckpoint (car_update C dt (vehicle s2)) = Some i"
    using keeps_cursor_exec [OF keeps, of "Update dt" "vehicle s2"] cur2 by simp
  let ?s4 = "if euclidean (vehicle ?s3) (checkpoints (track s) ! i) < 50
             then ?s3\<lparr>vehicle := (vehicle ?s3)\<lparr>targetCheckpoint :=
                    Some ((i + 1) mod length (checkpoints (track s)))\<rparr>\<rparr>
             else ?s3"
  have adv: "advanceCheckpoint ?s3 = Some ?s4"
    using range by (simp add: advanceCheckpoint_eq cur3 trk)
  have "update C dt opp rnd s = Some (cs @ [Update dt], ?s4)"
    unfolding update_def Let_def pass by (simp add: invoke_eq adv)
  moreover have "settings ?s4 = settings s"
    using set2 by (simp add: settings_def)
  moreover have "targetCheckpoint (vehicle ?s4) =
         Some (if euclidean (vehicle ?s4) (checkpoints (track s) ! i) < 50
               then (i + 1) mod length (checkpoints (track s)) else i)"
    by (simp add: cur3 euclidean_def)
  ultimately show ?thesis
    by blast
qed

lemma updates_cursor:
  assumes keeps: "keeps_cursor C"
    and line: "racingLine s \<noteq> []"
    and cursor: "\<exists>i < length (checkpoints (track s)). targetCheckpoint (vehicle s) = Some i"
  shows "\<exists>s'. updates C ticks s = Some s' \<and> settings s' = settings s
           \<and> (\<exists>j < length (checkpoints (track s)). targetCheckpoint (vehicle s') = Some j)"
  using line cursor
proof (induction ticks arbitrary: s)
  case Nil
  then show ?case
    by simp
next
  case (Cons tick ticks)
  obtain dt opp rnd where tick: "tick = (dt, opp, rnd)"
    by (cases tick)
  from Cons.prems(2) obtain i where i: "i < length (checkpoints (track s))"
    and cur: "targetCheckpoint (vehicle s) = Some i"
    by blast
  from update_step [OF keeps Cons.prems(1) cur i, of dt opp rnd] obtain calls s1
    where u: "update C dt opp rnd s = Some (calls, s1)"
      and set1: "settings s1 = settings s"
      and cur1: "targetCheckpoint (vehicle s1) =
         Some (if euclidean (vehicle s1) (checkpoints (track s) ! i) < 50
               then (i + 1) mod length (checkpoints (track s)) else i)"
    by blast
  have same: "track s1 = track s" "racingLine s1 = racingLine s"
    using set1 by (simp_all add: settings_def)
  have "racingLine s1 \<noteq> []"
    using Cons.prems(1) same by simp
  moreover have "Suc i mod length (checkpoints (track s)) < length (checkpoints (track s))"
    using i by (intro mod_less_divisor) linarith
  then have "\<exists>j < length (checkpoints (track s1)). targetCheckpoint (vehicle s1) = Some j"
    using i by (simp add: cur1 same)
  ultimately obtain s' where "updates C ticks s1 = Some s'" "settings s' = settings s1"
    "\<exists>j < length (checkpoints (track s1)). targetCheckpoint (vehicle s') = Some j"
    using Cons.IH by blast
  then show ?case
    using u set1 same by (simp add: tick)
qed

text \<open>A newly constructed driver on a track with a checkpoint: cursor \<open>0\<close>, in range.\<close>

lemma newAICar_cursor:
  "checkpoints trk \<noteq> [] \<Longrightarrow>
   racingLine (newAICar C x y w h col a trk d) \<noteq> []
   \<and> track (newAICar C x y w h col a trk d) = trk
   \<and> targetCheckpoint (vehicle (newAICar C x y w h col a trk d)) = Some 0"
proof -
  assume "checkpoints trk \<noteq> []"
  then have "length (calculateRacingLine trk) \<noteq> 0"
    by (simp add: length_calculateRacingLine)
  then show ?thesis
    by (auto simp: newAICar_def Let_def)
qed

text \<open>
  C1: let no method of \<open>Car\<close> write the cursor, and let the driver have a racing line
  and a cursor \<open>i\<close> in range (as a newly constructed driver on a track with at least
  one checkpoint has). Then a call of \<open>update\<close> returns, with the track and the racing
  line unchanged, and the cursor is \<open>(i + 1) mod checkpointCount\<close> if the vehicle is now
  (after the motion step) closer than \<open>50\<close> to checkpoint \<open>i\<close> and is still \<open>i\<close>
  otherwise; so it moves by at most one, only below the threshold, and stays in range.
  After any run of calls of \<open>update\<close> the cursor is in range.
\<close>

theorem update_cursor:
  assumes "keeps_cursor C"
    and "racingLine s \<noteq> []"
    and "targetCheckpoint (vehicle s) = Some i"
    and "i < length (checkpoints (track s))"
  shows "(\<exists>calls s'. update C dt opp rnd s = Some (calls, s')
            \<and> track s' = track s \<and> racingLine s' = racingLine s
            \<and> targetCheckpoint (vehicle s') =
                Some (if euclidean (vehicle s') (checkpoints (track s) ! i) < 50
                      then (i + 1) mod length (checkpoints (track s)) else i)
            \<and> (\<exists>j < length (checkpoints (track s)). targetCheckpoint (vehicle s') = Some j))
    \<and> (\<forall>ticks. \<exists>s'. updates C ticks s = Some s' \<and> track s' = track s
            \<and> (\<exists>j < length (checkpoints (track s)). targetCheckpoint (vehicle s') = Some j))"
proof
  from update_step [OF assms, of dt opp rnd] obtain calls s'
    where u: "update C dt opp rnd s = Some (calls, s')"
      and set: "settings s' = settings s"
      and cur: "targetCheckpoint (vehicle s') =
         Some (if euclidean (vehicle s') (checkpoints (track s) ! i) < 50
               then (i + 1) mod length (checkpoints (track s)) else i)"
    by blast
  have "track s' = track s" "racingLine s' = racingLine s"
    using set by (simp_all add: settings_def)
  moreover have "Suc i mod length (checkpoints (track s)) < length (checkpoints (track s))"
    using assms(4) by (intro mod_less_divisor) linarith
  then have "\<exists>j < length (checkpoints (track s)). targetCheckpoint (vehicle s') = Some j"
    using assms(4) by (simp add: cur)
  ultimately show "\<exists>calls s'. update C dt opp rnd s = Some (calls, s')
            \<and> track s' = track s \<and> racingLine s' = racingLine s
            \<and> targetCheckpoint (vehicle s') =
                Some (if euclidean (vehicle s') (checkpoints (track s) ! i) < 50
                      then (i + 1) mod length (checkpoints (track s)) else i)
            \<and> (\<exists>j < length (checkpoints (track s)). targetCheckpoint (vehicle s') = Some j)"
    using u cur by blast
next
  have "\<exists>i < length (checkpoints (track s)). targetCheckpoint (vehicle s) = Some i"
    using assms(3,4) by blast
  note run = updates_cursor [OF assms(1,2) this]
  show "\<forall>ticks. \<exists>s'. updates C ticks s = Some s' \<and> track s' = track s
            \<and> (\<exists>j < length (checkpoints (track s)). targetCheckpoint (vehicle s') = Some j)"
  proof
    fix ticks
    from run [of ticks] obtain s' where "updates C ticks s = Some s'"
      and "settings s' = settings s"
      and "\<exists>j < length (checkpoints (track s)). targetCheckpoint (vehicle s') = Some j"
      by blast
    moreover from this(2) have "track s' = track s"
      by (simp add: settings_def)
    ultimately show "\<exists>s'. updates C ticks s = Some s' \<and> track s' = track s
            \<and> (\<exists>j < length (checkpoints (track s)). targetCheckpoint (vehicle s') = Some j)"
      by blast
  qed
qed

lemma plainCar_keeps_cursor: "keeps_cursor plainCar"
  unfolding keeps_cursor_def
proof (intro allI)
  fix c :: "(real \<times> bool) car" and ctl
  show "targetCheckpoint (exec plainCar ctl c) = targetCheckpoint c"
    by (cases ctl) (simp_all add: plainCar_def)
qed

theorem update_cursor_witness:
  "(\<exists>calls s'. update plainCar 0.016 None someRolls (driverAt 0 0 0 False) = Some (calls, s')
       \<and> targetCheckpoint (vehicle s') = Some 1)
   \<and> (\<exists>calls s'. update plainCar 0.016 None someRolls (driverAt 0 60 0 False) = Some (calls, s')
       \<and> targetCheckpoint (vehicle s') = Some 0)
   \<and> (\<exists>calls s' j. update plainCar 0.2 (Some (playerAt 0 0 (Some 0))) someRolls
              (driverAt 0 0 0 False) = Some (calls, s')
       \<and> targetCheckpoint (vehicle s') = Some j \<and> j < 4)"
proof -
  have wf: "\<And>y. racingLine (driverAt 0 y 0 False) \<noteq> []"
    "\<And>y. targetCheckpoint (vehicle (driverAt 0 y 0 False)) = Some 0"
    "\<And>y. 0 < length (checkpoints (track (driverAt 0 y 0 False)))"
    by (simp_all add: driverAt_def squareTrack_def)
  have len: "\<And>y. length (checkpoints (track (driverAt 0 y 0 False))) = 4"
    "\<And>y. checkpoints (track (driverAt 0 y 0 False)) ! 0 = \<lparr>point_x = 0, point_y = 0\<rparr>"
    by (simp_all add: driverAt_def squareTrack_def)
  note U0 = update_cursor [OF plainCar_keeps_cursor wf(1) [of 0] wf(2) [of 0] wf(3) [of 0]]
  note U60 = update_cursor [OF plainCar_keeps_cursor wf(1) [of 60] wf(2) [of 60] wf(3) [of 60]]
  have still: "\<And>y calls s'.
      update plainCar 0.016 None someRolls (driverAt 0 y 0 False) = Some (calls, s')
      \<Longrightarrow> car_x (vehicle s') = 0 \<and> car_y (vehicle s') = y"
    by (auto simp: update_no_pass advanceCheckpoint_eq plainCar_def driverAt_def
        split: if_splits)
  from U0 [where dt = "0.016" and opp = None and rnd = someRolls] obtain c1 s1
    where u1: "update plainCar 0.016 None someRolls (driverAt 0 0 0 False) = Some (c1, s1)"
      and cur1: "targetCheckpoint (vehicle s1) =
          Some (if euclidean (vehicle s1) \<lparr>point_x = 0, point_y = 0\<rparr> < 50
                then (0 + 1) mod 4 else 0)"
    unfolding len by blast
  from U60 [where dt = "0.016" and opp = None and rnd = someRolls] obtain c2 s2
    where u2: "update plainCar 0.016 None someRolls (driverAt 0 60 0 False) = Some (c2, s2)"
      and cur2: "targetCheckpoint (vehicle s2) =
          Some (if euclidean (vehicle s2) \<lparr>point_x = 0, point_y = 0\<rparr> < 50
                then (0 + 1) mod 4 else 0)"
    unfolding len by blast
  from U0 [where dt = "0.2" and opp = "Some (playerAt 0 0 (Some 0))" and rnd = someRolls] obtain c3 s3 j
    where u3: "update plainCar 0.2 (Some (playerAt 0 0 (Some 0))) someRolls
                 (driverAt 0 0 0 False) = Some (c3, s3)"
      and cur3: "targetCheckpoint (vehicle s3) = Some j" "j < 4"
    unfolding len by blast
  have "targetCheckpoint (vehicle s1) = Some 1"
    using still [OF u1] by (simp add: cur1 euclidean_def)
  moreover have "targetCheckpoint (vehicle s2) = Some 0"
    using still [OF u2] by (simp add: cur2 euclidean_def)
  ultimately show ?thesis
    using u1 u2 u3 cur3 by blast
qed

end
